theory Spec2Isabelle
  imports Complex_Main "HOL-Library.List_Lexorder"
begin

section \<open>JavaScript values used by the ledger and the engine\<close>

text \<open>
  A JavaScript string is a sequence of UTF-16 code units.  The labels of this program are
  Korean, so a code unit is a natural number and not an 8-bit character.  The order of
  \<open>Array.prototype.sort()\<close> without a comparator is the lexicographic order of the code
  units, which is the order of lists of naturals.
\<close>

type_synonym jsstring = "nat list"

definition js :: "string \<Rightarrow> jsstring" where
  "js s = map of_char s"

text \<open>
  A \<open>Set\<close> keeps its members in insertion order and ignores a member that is already
  there; \<open>Array.from\<close> reads them back in that order.
\<close>

definition Set_add :: "'a list \<Rightarrow> 'a \<Rightarrow> 'a list" where
  "Set_add s x = (if x \<in> set s then s else s @ [x])"

definition new_Set :: "'a list \<Rightarrow> 'a list" where
  "new_Set xs = foldl Set_add [] xs"

section \<open>The ledger of the pipeline: class Manifest\<close>

datatype att_kind = File | Link

record Attachment =
  att_kind :: att_kind
  att_code :: jsstring
  att_label :: jsstring
  att_url :: jsstring
  att_path :: "jsstring option"
  att_size :: "int option"
  att_hash :: "jsstring option"
  att_ext :: "jsstring option"
  att_success :: bool
  att_error :: "jsstring option"

record Stats =
  st_ok :: nat
  st_fail :: nat
  st_skipped :: nat
  st_retries :: nat
  st_totalFiles :: nat
  st_totalSize :: int
  st_codes :: "jsstring list"

record ManifestData =
  md_url :: jsstring
  md_title :: jsstring
  md_prefix :: jsstring
  md_attachments :: "Attachment list"
  md_missing :: "jsstring list"
  md_stats :: Stats
  md_startedAt :: jsstring
  md_endedAt :: jsstring
  md_log :: "jsstring list"

record Manifest =
  data :: ManifestData
  requiredCodes :: "jsstring list"

definition defaultRequiredCodes :: "jsstring list" where
  "defaultRequiredCodes = [js ''AP'', js ''REG'', js ''BLD'', js ''ZON'', js ''RS'']"

text \<open>The constructor; \<open>now\<close> is what \<open>new Date().toISOString()\<close> answers.\<close>

definition Manifest_new :: "jsstring \<Rightarrow> jsstring \<Rightarrow> jsstring \<Rightarrow> jsstring \<Rightarrow> jsstring list \<Rightarrow> Manifest" where
  "Manifest_new now url title prefix required =
     \<lparr> data = \<lparr> md_url = url, md_title = title, md_prefix = prefix,
                 md_attachments = [], md_missing = [],
                 md_stats = \<lparr> st_ok = 0, st_fail = 0, st_skipped = 0, st_retries = 0,
                              st_totalFiles = 0, st_totalSize = 0, st_codes = [] \<rparr>,
                 md_startedAt = now, md_endedAt = [], md_log = [] \<rparr>,
       requiredCodes = new_Set required \<rparr>"

text \<open>\<open>a.size || 0\<close>: an absent size counts as 0.\<close>

definition size_or_0 :: "Attachment \<Rightarrow> int" where
  "size_or_0 a = (case att_size a of None \<Rightarrow> 0 | Some n \<Rightarrow> n)"

definition successful_files :: "Attachment list \<Rightarrow> Attachment list" where
  "successful_files atts = filter att_success (filter (\<lambda>a. att_kind a = File) atts)"

definition updateStats :: "Manifest \<Rightarrow> Manifest" where
  "updateStats m =
     (let atts = md_attachments (data m);
          files = filter (\<lambda>a. att_kind a = File) atts;
          successful = filter att_success files;
          failed = filter (\<lambda>a. \<not> att_success a) files;
          links = filter (\<lambda>a. att_kind a = Link) atts;
          codes = new_Set (map att_code successful)
      in m \<lparr> data := (data m)
               \<lparr> md_stats := \<lparr> st_ok = length successful, st_fail = length failed,
                               st_skipped = length links, st_retries = 0,
                               st_totalFiles = length files,
                               st_totalSize = foldl (\<lambda>sum a. sum + size_or_0 a) 0 successful,
                               st_codes = sort codes \<rparr>,
                 md_missing := sort (filter (\<lambda>code. code \<notin> set codes) (requiredCodes m)) \<rparr> \<rparr>)"

definition add :: "Manifest \<Rightarrow> Attachment \<Rightarrow> Manifest" where
  "add m attachment =
     updateStats (m \<lparr> data := (data m) \<lparr> md_attachments := md_attachments (data m) @ [attachment] \<rparr> \<rparr>)"

definition getMissing :: "Manifest \<Rightarrow> jsstring list" where
  "getMissing m = md_missing (data m)"

definition hasRequiredCodes :: "Manifest \<Rightarrow> bool" where
  "hasRequiredCodes m = (length (md_missing (data m)) = 0)"

text \<open>
  The required categories that are not the category of a successful file entry, sorted:
  \<open>missing\<close> as a function of the entries alone.
\<close>

definition missing_of :: "jsstring list \<Rightarrow> Attachment list \<Rightarrow> jsstring list" where
  "missing_of required atts =
     sort (filter (\<lambda>code. code \<notin> att_code ` set (successful_files atts)) required)"

section \<open>The earlier ledger class, without entry kinds\<close>

text \<open>
  \<open>src/utils/manifest.ts\<close> holds an earlier \<open>Manifest\<close>: its \<open>Attachment\<close> has no
  \<open>kind\<close> (every entry is a file) and a size that is always present.
\<close>

record Attachment_v1 =
  a1_code :: jsstring
  a1_label :: jsstring
  a1_url :: jsstring
  a1_path :: jsstring
  a1_hash :: jsstring
  a1_size :: int
  a1_success :: bool
  a1_error :: "jsstring option"

record Stats_v1 =
  s1_total :: nat
  s1_success :: nat
  s1_failed :: nat
  s1_totalSize :: int
  s1_codes :: "jsstring list"

record Manifest_v1 =
  v1_url :: jsstring
  v1_title :: jsstring
  v1_prefix :: jsstring
  v1_attachments :: "Attachment_v1 list"
  v1_missing :: "jsstring list"
  v1_stats :: Stats_v1
  v1_timestamp :: jsstring
  v1_requiredCodes :: "jsstring list"

definition Manifest_v1_new :: "jsstring \<Rightarrow> jsstring \<Rightarrow> jsstring \<Rightarrow> jsstring \<Rightarrow> jsstring list \<Rightarrow> Manifest_v1" where
  "Manifest_v1_new now url title prefix required =
     \<lparr> v1_url = url, v1_title = title, v1_prefix = prefix, v1_attachments = [],
       v1_missing = [],
       v1_stats = \<lparr> s1_total = 0, s1_success = 0, s1_failed = 0, s1_totalSize = 0, s1_codes = [] \<rparr>,
       v1_timestamp = now, v1_requiredCodes = new_Set required \<rparr>"

definition updateStats_v1 :: "Manifest_v1 \<Rightarrow> Manifest_v1" where
  "updateStats_v1 m =
     (let successful = filter a1_success (v1_attachments m);
          codes = new_Set (map a1_code successful)
      in m \<lparr> v1_stats := \<lparr> s1_total = length (v1_attachments m),
                            s1_success = length successful,
                            s1_failed = length (v1_attachments m) - length successful,
                            s1_totalSize = foldl (\<lambda>sum a. sum + a1_size a) 0 successful,
                            s1_codes = sort codes \<rparr>,
             v1_missing := sort (filter (\<lambda>code. code \<notin> set codes) (v1_requiredCodes m)) \<rparr>)"

definition add_v1 :: "Manifest_v1 \<Rightarrow> Attachment_v1 \<Rightarrow> Manifest_v1" where
  "add_v1 m attachment = updateStats_v1 (m \<lparr> v1_attachments := v1_attachments m @ [attachment] \<rparr>)"

definition getMissing_v1 :: "Manifest_v1 \<Rightarrow> jsstring list" where
  "getMissing_v1 m = v1_missing m"

section \<open>The ledger of the batch runner: class ManifestManager\<close>

record DocumentCandidate =
  dc_text :: jsstring
  dc_href :: jsstring
  dc_code :: "jsstring option"
  dc_selector :: jsstring
  dc_isFormBased :: "bool option"

record ResolvedUrl =
  ru_originalHref :: jsstring
  ru_finalUrl :: jsstring
  ru_method :: jsstring
  ru_requestBody :: "jsstring option"
  ru_contentType :: "jsstring option"
  ru_filename :: "jsstring option"
  ru_success :: bool
  ru_error :: "jsstring option"

record DownloadResult =
  dr_filename :: jsstring
  dr_filepath :: jsstring
  dr_size :: int
  dr_contentType :: "jsstring option"
  dr_success :: bool
  dr_error :: "jsstring option"

record ManifestEntry =
  me_code :: "jsstring option"
  me_originalText :: jsstring
  me_filename :: jsstring
  me_filepath :: jsstring
  me_finalUrl :: jsstring
  me_method :: jsstring
  me_requestBody :: "jsstring option"
  me_contentType :: "jsstring option"
  me_size :: int
  me_timestamp :: jsstring
  me_success :: bool
  me_error :: "jsstring option"

record Summary =
  foundCodes :: "jsstring list"
  totalSize :: int
  successCount :: int
  failCount :: int

record Metadata =
  createdAt :: jsstring
  processedUrls :: "jsstring list"

record LedgerManifest =
  casePrefix :: jsstring
  totalCandidates :: int
  processedFiles :: "ManifestEntry list"
  missing :: "jsstring list"
  summary :: Summary
  metadata :: Metadata

datatype js_error = TypeError | IOError

definition requiredCodes_lib :: "jsstring list" where
  "requiredCodes_lib = [js ''AP'', js ''RS'', js ''REG'', js ''BLD'', js ''ZON'']"

text \<open>
  Truthiness of an optional string: \<open>undefined\<close> and the empty string are falsy.
  \<open>a || b\<close> answers \<open>a\<close> when it is truthy and \<open>b\<close> otherwise.
\<close>

definition truthy :: "jsstring option \<Rightarrow> bool" where
  "truthy v = (case v of None \<Rightarrow> False | Some s \<Rightarrow> s \<noteq> [])"

definition or_else :: "jsstring option \<Rightarrow> jsstring option \<Rightarrow> jsstring option" where
  "or_else a b = (if truthy a then a else b)"

text \<open>The accumulators of the loops: entries, found codes, total size, success count.\<close>

record Tally =
  t_found :: "jsstring list"
  t_size :: int
  t_count :: int

definition empty_Tally :: Tally where
  "empty_Tally = \<lparr> t_found = [], t_size = 0, t_count = 0 \<rparr>"

definition make_entry :: "jsstring \<Rightarrow> DocumentCandidate \<Rightarrow> ResolvedUrl \<Rightarrow> DownloadResult \<Rightarrow> ManifestEntry" where
  "make_entry stamp candidate resolved download =
     \<lparr> me_code = dc_code candidate, me_originalText = dc_text candidate,
       me_filename = dr_filename download, me_filepath = dr_filepath download,
       me_finalUrl = ru_finalUrl resolved, me_method = ru_method resolved,
       me_requestBody = ru_requestBody resolved,
       me_contentType = or_else (dr_contentType download) (ru_contentType resolved),
       me_size = dr_size download, me_timestamp = stamp, me_success = dr_success download,
       me_error = (if \<not> dr_success download
                   then or_else (or_else (dr_error download) (ru_error resolved))
                          (Some (js ''Unknown error''))
                   else None) \<rparr>"

definition tally_candidate :: "Tally \<Rightarrow> DocumentCandidate \<Rightarrow> DownloadResult \<Rightarrow> Tally" where
  "tally_candidate t candidate download =
     (case dc_code candidate of
        Some c \<Rightarrow> if dr_success download \<and> c \<noteq> []
                  then \<lparr> t_found = Set_add (t_found t) c, t_size = t_size t + dr_size download,
                         t_count = t_count t + 1 \<rparr>
                  else t
      | None \<Rightarrow> t)"

text \<open>
  The loop of \<open>createManifest\<close> walks the candidates and reads the resolved URL and the
  download result at the same index; reading a field of a missing one is a TypeError.
  \<open>clock i\<close> is the timestamp taken at entry \<open>i\<close>.
\<close>

fun createManifest_loop ::
  "(nat \<Rightarrow> jsstring) \<Rightarrow> nat \<Rightarrow> DocumentCandidate list \<Rightarrow> ResolvedUrl list \<Rightarrow> DownloadResult list \<Rightarrow>
   ManifestEntry list \<times> Tally \<Rightarrow> js_error + ManifestEntry list \<times> Tally" where
  "createManifest_loop clock i [] rs ds acc = Inr acc"
| "createManifest_loop clock i (c # cs) (r # rs) (d # ds) (entries, t) =
     createManifest_loop clock (Suc i) cs rs ds
       (entries @ [make_entry (clock i) c r d], tally_candidate t c d)"
| "createManifest_loop clock i (c # cs) rs ds acc = Inl TypeError"

definition createManifest ::
  "(nat \<Rightarrow> jsstring) \<Rightarrow> bool \<Rightarrow> jsstring \<Rightarrow> DocumentCandidate list \<Rightarrow> ResolvedUrl list \<Rightarrow>
   DownloadResult list \<Rightarrow> jsstring list \<Rightarrow> js_error + LedgerManifest" where
  "createManifest clock write_ok prefix candidates resolvedUrls downloadResults urls =
     (case createManifest_loop clock 0 candidates resolvedUrls downloadResults ([], empty_Tally) of
        Inl e \<Rightarrow> Inl e
      | Inr (entries, t) \<Rightarrow>
          if \<not> write_ok then Inl IOError
          else Inr \<lparr> casePrefix = prefix,
                     totalCandidates = int (length candidates),
                     processedFiles = entries,
                     missing = filter (\<lambda>code. code \<notin> set (t_found t)) requiredCodes_lib,
                     summary = \<lparr> foundCodes = sort (t_found t), totalSize = t_size t,
                                 successCount = t_count t,
                                 failCount = int (length candidates) - t_count t \<rparr>,
                     metadata = \<lparr> createdAt = clock (length candidates),
                                  processedUrls = urls \<rparr> \<rparr>)"

definition tally_entry :: "Tally \<Rightarrow> ManifestEntry \<Rightarrow> Tally" where
  "tally_entry t entry =
     (case me_code entry of
        Some c \<Rightarrow> if me_success entry \<and> c \<noteq> []
                  then \<lparr> t_found = Set_add (t_found t) c, t_size = t_size t + me_size entry,
                         t_count = t_count t + 1 \<rparr>
                  else t
      | None \<Rightarrow> t)"

definition mergeManifests :: "LedgerManifest \<Rightarrow> LedgerManifest \<Rightarrow> LedgerManifest" where
  "mergeManifests existing newManifest =
     (let merged = newManifest
            \<lparr> processedFiles := processedFiles existing @ processedFiles newManifest,
              totalCandidates := totalCandidates existing + totalCandidates newManifest,
              metadata := (metadata newManifest)
                 \<lparr> processedUrls := processedUrls (metadata existing)
                                      @ processedUrls (metadata newManifest) \<rparr> \<rparr>;
          t = foldl tally_entry empty_Tally (processedFiles merged)
      in merged
           \<lparr> summary := \<lparr> foundCodes = sort (t_found t), totalSize = t_size t,
                           successCount = t_count t,
                           failCount = totalCandidates merged - t_count t \<rparr>,
             missing := filter (\<lambda>code. code \<notin> set (t_found t)) requiredCodes_lib \<rparr>)"

text \<open>
  The ledgers the batch runner handles: one made by \<open>createManifest\<close>, or the merge of an
  earlier ledger with a later one.
\<close>

inductive ledger :: "LedgerManifest \<Rightarrow> bool" where
  created: "createManifest clock write_ok prefix cs rs ds urls = Inr m \<Longrightarrow> ledger m"
| merged: "ledger e \<Longrightarrow> ledger n \<Longrightarrow> ledger (mergeManifests e n)"

text \<open>An entry is counted when its download succeeded and it carries a category code.\<close>

definition counted :: "ManifestEntry \<Rightarrow> bool" where
  "counted e = (me_success e \<and> truthy (me_code e))"

definition code_of :: "ManifestEntry \<Rightarrow> jsstring" where
  "code_of e = (case me_code e of None \<Rightarrow> [] | Some c \<Rightarrow> c)"

definition found_in :: "ManifestEntry list \<Rightarrow> jsstring list" where
  "found_in entries = new_Set (map code_of (filter counted entries))"

definition missing_in :: "ManifestEntry list \<Rightarrow> jsstring list" where
  "missing_in entries = filter (\<lambda>code. code \<notin> set (found_in entries)) requiredCodes_lib"

text \<open>
  The statistics as the specification words them, computed from an entry list alone:
  \<open>n\<close> is the number of candidates the entries stand for.
\<close>

definition summary_in :: "int \<Rightarrow> ManifestEntry list \<Rightarrow> Summary" where
  "summary_in n entries =
     \<lparr> foundCodes = sort (found_in entries),
       totalSize = sum_list (map me_size (filter counted entries)),
       successCount = int (length (filter counted entries)),
       failCount = n - int (length (filter counted entries)) \<rparr>"

text \<open>A run over one candidate whose download succeeds, with or without a category code.\<close>

definition ex_clock :: "nat \<Rightarrow> jsstring" where
  "ex_clock i = js ''2025-01-01T00:00:00.000Z''"

definition ex_candidate :: "jsstring option \<Rightarrow> DocumentCandidate" where
  "ex_candidate c = \<lparr> dc_text = js ''doc'', dc_href = js ''#'', dc_code = c,
                      dc_selector = js ''a'', dc_isFormBased = None \<rparr>"

definition ex_resolved :: ResolvedUrl where
  "ex_resolved = \<lparr> ru_originalHref = js ''#'', ru_finalUrl = js ''http://h/f.pdf'',
                   ru_method = js ''GET'', ru_requestBody = None, ru_contentType = None,
                   ru_filename = None, ru_success = True, ru_error = None \<rparr>"

definition ex_download :: DownloadResult where
  "ex_download = \<lparr> dr_filename = js ''AP_doc.pdf'', dr_filepath = js ''out/AP_doc.pdf'',
                   dr_size = 245760, dr_contentType = None, dr_success = True,
                   dr_error = None \<rparr>"

definition ex_ledger :: "jsstring option \<Rightarrow> LedgerManifest" where
  "ex_ledger c =
     \<lparr> casePrefix = js ''case'', totalCandidates = 1,
       processedFiles = [make_entry (ex_clock 0) (ex_candidate c) ex_resolved ex_download],
       missing = (if truthy c then filter (\<lambda>code. code \<noteq> the c) requiredCodes_lib
                  else requiredCodes_lib),
       summary = \<lparr> foundCodes = (if truthy c then [the c] else []),
                   totalSize = (if truthy c then 245760 else 0),
                   successCount = (if truthy c then 1 else 0),
                   failCount = (if truthy c then 0 else 1) \<rparr>,
       metadata = \<lparr> createdAt = ex_clock 1, processedUrls = [] \<rparr> \<rparr>"

text \<open>
  The character classes of the pattern that \<open>generateUniqueFilename\<close> strips with
  (word characters, white space, hyphen, underscore and the Hangul syllables are kept), on
  code units: \<open>\w\<close> is \<open>[A-Za-z0-9_]\<close>, \<open>\s\<close> is the white space and line terminators of
  ECMAScript, and the Hangul range is U+AC00 to U+D7A3.
\<close>

definition is_word_char :: "nat \<Rightarrow> bool" where
  "is_word_char c = ((65 \<le> c \<and> c \<le> 90) \<or> (97 \<le> c \<and> c \<le> 122) \<or> (48 \<le> c \<and> c \<le> 57) \<or> c = 95)"

definition is_space_char :: "nat \<Rightarrow> bool" where
  "is_space_char c = (c \<in> set [9, 10, 11, 12, 13, 32, 160, 5760, 8232, 8233, 8239, 8287, 12288, 65279]
                       \<or> (8192 \<le> c \<and> c \<le> 8202))"

definition is_hangul :: "nat \<Rightarrow> bool" where
  "is_hangul c = (44032 \<le> c \<and> c \<le> 55203)"

definition kept_char :: "nat \<Rightarrow> bool" where
  "kept_char c = (is_word_char c \<or> is_space_char c \<or> c = 45 \<or> c = 95 \<or> is_hangul c)"

text \<open>\<open>replace(/\s+/g, '_')\<close>: every maximal run of white space becomes one underscore.\<close>

fun collapse_spaces :: "bool \<Rightarrow> jsstring \<Rightarrow> jsstring" where
  "collapse_spaces in_run [] = []"
| "collapse_spaces in_run (c # cs) =
     (if is_space_char c
      then (if in_run then collapse_spaces True cs else 95 # collapse_spaces True cs)
      else c # collapse_spaces False cs)"

text \<open>\<open>s.replace(pat, rep)\<close> with a string pattern replaces the first occurrence only.\<close>

fun replace_first :: "jsstring \<Rightarrow> jsstring \<Rightarrow> jsstring \<Rightarrow> jsstring" where
  "replace_first pat rep [] = (if pat = [] then rep else [])"
| "replace_first pat rep (c # cs) =
     (if take (length pat) (c # cs) = pat then rep @ drop (length pat) (c # cs)
      else c # replace_first pat rep cs)"

text \<open>The decimal digits of a counter, as a template literal prints it.\<close>

fun show_nat :: "nat \<Rightarrow> jsstring" where
  "show_nat n = (if n < 10 then [48 + n] else show_nat (n div 10) @ [48 + n mod 10])"

declare show_nat.simps [simp del]

definition numbered :: "jsstring \<Rightarrow> jsstring \<Rightarrow> nat \<Rightarrow> jsstring" where
  "numbered baseFilename extension counter =
     replace_first extension [] baseFilename @ [95] @ show_nat counter @ extension"

text \<open>
  The loop of \<open>generateUniqueFilename\<close>.  \<open>taken\<close> is its condition: the name is in the
  registry or exists in the output directory.  The loop has no bound of its own.
\<close>

partial_function (option) unique_loop ::
  "(jsstring \<Rightarrow> bool) \<Rightarrow> jsstring \<Rightarrow> jsstring \<Rightarrow> jsstring \<Rightarrow> nat \<Rightarrow> jsstring option" where
  "unique_loop taken baseFilename extension filename counter =
     (if taken filename
      then unique_loop taken baseFilename extension
             (numbered baseFilename extension counter) (counter + 1)
      else Some filename)"

definition baseFilename_of :: "DocumentCandidate \<Rightarrow> jsstring \<Rightarrow> jsstring" where
  "baseFilename_of candidate extension =
     (let code = (case dc_code candidate of None \<Rightarrow> js ''UNK''
                  | Some c \<Rightarrow> if c = [] then js ''UNK'' else c);
          sanitizedText = take 20 (collapse_spaces False (filter kept_char (dc_text candidate)))
      in code @ [95] @ sanitizedText @ extension)"

text \<open>
  The registry \<open>existingFiles\<close> is a \<open>Set\<close>; \<open>disk\<close> lists the names that exist in the
  output directory when the call is made.  The result is the name and the new registry.
\<close>

definition generateUniqueFilename ::
  "jsstring list \<Rightarrow> jsstring list \<Rightarrow> DocumentCandidate \<Rightarrow> jsstring \<Rightarrow> (jsstring \<times> jsstring list) option" where
  "generateUniqueFilename existingFiles disk candidate extension =
     (let baseFilename = baseFilename_of candidate extension
      in case unique_loop (\<lambda>f. f \<in> set existingFiles \<or> f \<in> set disk)
                baseFilename extension baseFilename 1 of
           None \<Rightarrow> None
         | Some filename \<Rightarrow> Some (filename, Set_add existingFiles filename))"

text \<open>
  \<open>loadExistingManifest\<close>: \<open>stored\<close> is the ledger read from the output directory, or
  \<open>None\<close> when there is no file or it cannot be read; the result is the ledger handed
  back and the registry with the file names of the successful entries added.
\<close>

definition loadExistingManifest ::
  "jsstring list \<Rightarrow> LedgerManifest option \<Rightarrow> LedgerManifest option \<times> jsstring list" where
  "loadExistingManifest existingFiles stored =
     (case stored of
        None \<Rightarrow> (None, existingFiles)
      | Some manifest \<Rightarrow>
          (Some manifest,
           foldl (\<lambda>reg entry. if me_success entry then Set_add reg (me_filename entry) else reg)
             existingFiles (processedFiles manifest)))"

definition clearFileCache :: "jsstring list \<Rightarrow> jsstring list" where
  "clearFileCache existingFiles = []"

text \<open>
  The calls of one case, in order: each has its candidate, its extension and the directory
  listing of its moment.  The result is the names handed out and the final registry.
\<close>

fun generate_all ::
  "jsstring list \<Rightarrow> (jsstring list \<times> DocumentCandidate \<times> jsstring) list \<Rightarrow>
   (jsstring list \<times> jsstring list) option" where
  "generate_all reg [] = Some ([], reg)"
| "generate_all reg ((disk, candidate, extension) # calls) =
     (case generateUniqueFilename reg disk candidate extension of
        None \<Rightarrow> None
      | Some (filename, reg') \<Rightarrow>
          (case generate_all reg' calls of
             None \<Rightarrow> None
           | Some (names, reg'') \<Rightarrow> Some (filename # names, reg'')))"

section \<open>Retries of the two downloaders\<close>

text \<open>
  What a download does that the outside can see: it calls \<open>performDownload\<close> and it
  sleeps between attempts, for a number of milliseconds.
\<close>

datatype event = Attempt | Sleep int



record TransportResult =
  tr_success :: bool
  tr_path :: "jsstring option"
  tr_size :: int
  tr_hash :: "jsstring option"
  tr_error :: "jsstring option"
  tr_contentType :: "jsstring option"

text \<open>\<open>lastError?.message || fallback\<close>\<close>

definition message_or :: "jsstring option \<Rightarrow> jsstring \<Rightarrow> jsstring" where
  "message_or lastError fallback =
     (case lastError of None \<Rightarrow> fallback | Some m \<Rightarrow> if m = [] then fallback else m)"

text \<open>
  \<open>Downloader.download\<close> of the rate-limited transport.  \<open>perform k\<close> is what the call
  of \<open>performDownload\<close> through the rate limiter does at attempt \<open>k\<close>: it throws an
  error with a message, or it returns a result.
\<close>

function download_loop ::
  "(nat \<Rightarrow> jsstring + TransportResult) \<Rightarrow> int \<Rightarrow> int \<Rightarrow> jsstring option \<Rightarrow> event list \<Rightarrow>
   TransportResult \<times> event list" where
  "download_loop perform retries attempt lastError trace =
     (if attempt \<le> retries
      then (case perform (nat attempt) of
              Inr result \<Rightarrow> (result, trace @ [Attempt])
            | Inl message \<Rightarrow>
                if attempt < retries
                then download_loop perform retries (attempt + 1) (Some message)
                       (trace @ [Attempt, Sleep (min (1000 * 2 ^ nat attempt) 10000)])
                else download_loop perform retries (attempt + 1) (Some message)
                       (trace @ [Attempt]))
      else (\<lparr> tr_success = False, tr_path = None, tr_size = 0, tr_hash = None,
              tr_error = Some (message_or lastError (js ''Unknown download error'')),
              tr_contentType = None \<rparr>, trace))"
  by pat_completeness auto
termination
  by (relation "measure (\<lambda>(perform, retries, attempt, lastError, trace). nat (retries + 1 - attempt))")
     auto

declare download_loop.simps [simp del]

definition download :: "(nat \<Rightarrow> jsstring + TransportResult) \<Rightarrow> int \<Rightarrow> TransportResult \<times> event list" where
  "download perform retries = download_loop perform retries 0 None []"









section \<open>The resolution engine: clickResolveAndSaveV2\<close>

text \<open>
  Patterns with the flag \<open>i\<close> compare ASCII letters without case; a code unit outside
  ASCII never equals an ASCII letter under that flag.
\<close>

definition to_lower :: "nat \<Rightarrow> nat" where
  "to_lower c = (if 65 \<le> c \<and> c \<le> 90 then c + 32 else c)"

definition starts_with :: "jsstring \<Rightarrow> jsstring \<Rightarrow> bool" where
  "starts_with pat s = (take (length pat) s = pat)"

definition starts_with_ci :: "jsstring \<Rightarrow> jsstring \<Rightarrow> bool" where
  "starts_with_ci pat s = (map to_lower (take (length pat) s) = map to_lower pat)"

fun str_includes :: "jsstring \<Rightarrow> jsstring \<Rightarrow> bool" where
  "str_includes pat [] = (pat = [])"
| "str_includes pat (c # cs) = (starts_with pat (c # cs) \<or> str_includes pat cs)"

fun str_includes_ci :: "jsstring \<Rightarrow> jsstring \<Rightarrow> bool" where
  "str_includes_ci pat [] = (pat = [])"
| "str_includes_ci pat (c # cs) = (starts_with_ci pat (c # cs) \<or> str_includes_ci pat cs)"

text \<open>The allow-list \<open>FILE_CT\<close>, anchored at the start of the content type.\<close>

definition FILE_CT :: "jsstring \<Rightarrow> bool" where
  "FILE_CT ct =
     (\<exists>p \<in> set [js ''application/pdf'', js ''application/octet-stream'', js ''text/csv'',
                  js ''application/vnd.ms-excel'',
                  js ''application/vnd.openxmlformats-officedocument.spreadsheetml.sheet'',
                  js ''application/zip'', js ''image/png'', js ''image/jpg'', js ''image/jpeg'',
                  js ''image/tiff'', js ''image/gif''].
        starts_with_ci p ct)"

definition extFromCT :: "jsstring \<Rightarrow> jsstring \<Rightarrow> jsstring" where
  "extFromCT ct fallback =
     (if ct = [] then fallback
      else if str_includes_ci (js ''pdf'') ct then js ''pdf''
      else if str_includes_ci (js ''csv'') ct then js ''csv''
      else if str_includes_ci (js ''zip'') ct then js ''zip''
      else if str_includes_ci (js ''spreadsheetml'') ct then js ''xlsx''
      else if str_includes_ci (js ''ms-excel'') ct then js ''xls''
      else if str_includes_ci (js ''png'') ct then js ''png''
      else if str_includes_ci (js ''jpg'') ct \<or> str_includes_ci (js ''jpeg'') ct then js ''jpg''
      else if str_includes_ci (js ''tiff'') ct then js ''tif''
      else if str_includes_ci (js ''gif'') ct then js ''gif''
      else fallback)"

definition safeName :: "jsstring \<Rightarrow> jsstring" where
  "safeName s = map (\<lambda>c. if c \<in> set [47, 92, 63, 37, 42, 58, 124, 34, 60, 62] then 95 else c) s"

definition defaultExtFromCode :: "jsstring \<Rightarrow> jsstring" where
  "defaultExtFromCode code = (if str_includes_ci (js ''RTR'') code then js ''csv'' else js ''pdf'')"

text \<open>
  The capture of \<open>/filename\*?=(?:UTF-8''|")?([^";]+)/i\<close>: at the leftmost position
  where it matches, the run of characters other than the double quote and the semicolon
  after the optional prefix.
\<close>

definition cd_run :: "jsstring \<Rightarrow> jsstring" where
  "cd_run s = takeWhile (\<lambda>c. c \<noteq> 34 \<and> c \<noteq> 59) s"

definition cd_after_eq :: "jsstring \<Rightarrow> jsstring option" where
  "cd_after_eq r =
     (if starts_with_ci (js ''UTF-8'' @ [39, 39]) r \<and> cd_run (drop 7 r) \<noteq> [] then Some (cd_run (drop 7 r))
      else if starts_with [34] r \<and> cd_run (drop 1 r) \<noteq> [] then Some (cd_run (drop 1 r))
      else if cd_run r \<noteq> [] then Some (cd_run r)
      else None)"

definition cd_at :: "jsstring \<Rightarrow> jsstring option" where
  "cd_at s =
     (if starts_with_ci (js ''filename'') s
      then (let r = drop 8 s
            in if starts_with [42, 61] r then cd_after_eq (drop 2 r)
               else if starts_with [61] r then cd_after_eq (drop 1 r)
               else None)
      else None)"

fun cd_match :: "jsstring \<Rightarrow> jsstring option" where
  "cd_match [] = None"
| "cd_match (c # cs) = (case cd_at (c # cs) of Some cap \<Rightarrow> Some cap | None \<Rightarrow> cd_match cs)"

text \<open>
  What the program takes from its platform: the functions of Node's \<open>path\<close> module
  (\<open>basename_without p ext\<close> is \<open>path.basename(p, ext)\<close>), \<open>decodeURIComponent\<close>, which
  answers \<open>None\<close> when it throws, and the MD5 digest in hexadecimal.
\<close>

record platform =
  extname :: "jsstring \<Rightarrow> jsstring"
  basename :: "jsstring \<Rightarrow> jsstring"
  basename_without :: "jsstring \<Rightarrow> jsstring \<Rightarrow> jsstring"
  dirname :: "jsstring \<Rightarrow> jsstring"
  join_path :: "jsstring \<Rightarrow> jsstring \<Rightarrow> jsstring"
  decodeURIComponent :: "jsstring \<Rightarrow> jsstring option"
  md5_hex :: "nat list \<Rightarrow> jsstring"

definition nameFromCD :: "platform \<Rightarrow> jsstring \<Rightarrow> jsstring \<Rightarrow> jsstring option" where
  "nameFromCD P cd def =
     (if cd = [] then Some def
      else case decodeURIComponent P (case cd_match cd of Some cap \<Rightarrow> cap | None \<Rightarrow> def) of
             None \<Rightarrow> None
           | Some decoded \<Rightarrow> Some (safeName decoded))"

type_synonym bytes = "nat list"

text \<open>
  A response as the engine reads it: status, the two headers (the empty string when a
  header is absent) and the body, \<open>None\<close> when reading the body throws.
\<close>

record Response =
  rs_status :: nat
  rs_contentType :: jsstring
  rs_contentDisposition :: jsstring
  rs_body :: "bytes option"

definition sniffFileResponse :: "Response list \<Rightarrow> Response option" where
  "sniffFileResponse resps =
     find (\<lambda>r. FILE_CT (rs_contentType r) \<and> rs_status r = 200) (rev resps)"

text \<open>
  \<open>/<html|<!doctype/i\<close> on the first 500 bytes read as UTF-8.  The markers are ASCII, and
  UTF-8 turns ASCII bytes into the same code units and other bytes into code units outside
  ASCII, so the test is made on the bytes.
\<close>

definition looks_like_html :: "bytes \<Rightarrow> bool" where
  "looks_like_html buffer =
     (str_includes_ci (js ''<html'') (take 500 buffer) \<or> str_includes_ci (js ''<!doctype'') (take 500 buffer))"

text \<open>
  What the browser does after the click, as far as the engine observes it:
  \<open>w_mkdir\<close> says that the output directory could be made, \<open>w_pageStays\<close> that the
  wait on the page after the click did not throw, \<open>w_writes\<close> that writing and copying
  files succeed.  The helpers
  that drive the browser themselves (\<open>extractPdfFromHtml\<close>, \<open>clickDownloadButtonsInPage\<close>,
  \<open>fetchDirectFromViewer\<close>, \<open>findPdfSrcInDom\<close>, \<open>fetchDirectFromHref\<close>,
  \<open>waitAndPickupFromOS\<close>) catch their own errors and answer a path or \<open>null\<close>; the
  answer is part of the observation.
\<close>

record Download =
  dl_suggestedFilename :: jsstring
  dl_content :: bytes
  dl_saves :: bool

record Popup =
  pp_url :: jsstring
  pp_loads :: bool
  pp_responses :: "Response list"
  pp_savedByButton :: "jsstring option"
  pp_savedByDirect :: "jsstring option"
  pp_domSrc :: "jsstring option"
  pp_srcResponse :: "Response option"

record world =
  w_mkdir :: bool
  w_pageStays :: bool
  w_download :: "Download option"
  w_popup :: "Popup option"
  w_extractedPdf :: "jsstring option"
  w_respBucket :: "Response list"
  w_savedByHref :: "jsstring option"
  w_osFallback :: bool
  w_picked :: "jsstring option"
  w_writes :: bool

datatype tier =
    ViaPopupExtraction | ViaDownload | ViaPopupResponse | ViaPopupButton | ViaPopupDirect
  | ViaPopupSource | ViaPageResponse | ViaOriginalHref | ViaOsPickup
  | HtmlRejected | NoFile | Failed

text \<open>
  What a call leaves behind: the path it answers (\<open>None\<close> for \<open>null\<close>), the branch that
  answered, the files the engine wrote from bytes it held, and whether a popup that the
  click opened is still open at the return.
\<close>

record outcome =
  o_result :: "jsstring option"
  o_via :: tier
  o_written :: "(jsstring \<times> bytes) list"
  o_popup_open :: bool

datatype save = Saved jsstring bytes | HtmlDetected | Threw

text \<open>The block that saves a response sniffed in the popup (step 2 (a)).\<close>

definition save_popup_response :: "platform \<Rightarrow> bool \<Rightarrow> Response \<Rightarrow> jsstring \<Rightarrow> jsstring \<Rightarrow> save" where
  "save_popup_response P writes fileResp saveBase defaultExt =
     (let ct = rs_contentType fileResp;
          cd = rs_contentDisposition fileResp;
          ext = [46] @ extFromCT ct defaultExt
      in case nameFromCD P cd (basename P saveBase @ ext) of
           None \<Rightarrow> Threw
         | Some name \<Rightarrow>
             (let out = join_path P (dirname P saveBase) name
              in case rs_body fileResp of
                   None \<Rightarrow> Threw
                 | Some buf \<Rightarrow> if writes then Saved out buf else Threw))"

text \<open>The block that saves a response sniffed on the context (step 3).\<close>

definition save_page_response :: "platform \<Rightarrow> bool \<Rightarrow> Response \<Rightarrow> jsstring \<Rightarrow> jsstring \<Rightarrow> save" where
  "save_page_response P writes fileResp saveBase defaultExt =
     (let ct = rs_contentType fileResp;
          cd = rs_contentDisposition fileResp
      in case rs_body fileResp of
           None \<Rightarrow> Threw
         | Some buffer \<Rightarrow>
             if looks_like_html buffer then HtmlDetected
             else (let ext = [46] @ extFromCT ct defaultExt
                   in case nameFromCD P cd (basename P saveBase @ ext) of
                        None \<Rightarrow> Threw
                      | Some name \<Rightarrow>
                          (let out = join_path P (dirname P saveBase) name
                           in if writes then Saved out buffer else Threw)))"

text \<open>The block that gets the source found in the popup's DOM (step 2 (b.3)).\<close>

definition save_dom_source :: "platform \<Rightarrow> bool \<Rightarrow> Popup \<Rightarrow> jsstring \<Rightarrow> jsstring \<Rightarrow> save option" where
  "save_dom_source P writes pop saveBase defaultExt =
     (case pp_domSrc pop of
        None \<Rightarrow> None
      | Some src \<Rightarrow>
          if src = [] then None
          else (case pp_srcResponse pop of
                  None \<Rightarrow> Some Threw
                | Some r \<Rightarrow>
                    if FILE_CT (rs_contentType r)
                    then Some (save_popup_response P writes r saveBase defaultExt)
                    else None))"

definition returned :: "jsstring \<Rightarrow> tier \<Rightarrow> (jsstring \<times> bytes) list \<Rightarrow> bool \<Rightarrow> outcome" where
  "returned out via files popup_open =
     \<lparr> o_result = Some out, o_via = via, o_written = files, o_popup_open = popup_open \<rparr>"

definition non_empty :: "jsstring option \<Rightarrow> jsstring option" where
  "non_empty v = (case v of None \<Rightarrow> None | Some s \<Rightarrow> if s = [] then None else Some s)"

text \<open>
  Step 2, the popup: \<open>None\<close> when the block is left without a file; the popup is closed
  on every way out of it.
\<close>

definition popup_block :: "platform \<Rightarrow> bool \<Rightarrow> Popup \<Rightarrow> jsstring \<Rightarrow> jsstring \<Rightarrow> outcome option" where
  "popup_block P writes pop saveBase defaultExt =
     (if \<not> pp_loads pop then None
      else
        (let by_response =
               (case sniffFileResponse (pp_responses pop) of
                  None \<Rightarrow> None
                | Some fileResp \<Rightarrow>
                    (case save_popup_response P writes fileResp saveBase defaultExt of
                       Saved out buf \<Rightarrow> Some (returned out ViaPopupResponse [(out, buf)] False)
                     | HtmlDetected \<Rightarrow> None
                     | Threw \<Rightarrow> None))
         in case by_response of
              Some res \<Rightarrow> Some res
            | None \<Rightarrow>
                (case non_empty (pp_savedByButton pop) of
                   Some savedByButton \<Rightarrow> Some (returned savedByButton ViaPopupButton [] False)
                 | None \<Rightarrow>
                     (case non_empty (pp_savedByDirect pop) of
                        Some savedByDirect \<Rightarrow> Some (returned savedByDirect ViaPopupDirect [] False)
                      | None \<Rightarrow>
                          (case save_dom_source P writes pop saveBase defaultExt of
                             Some (Saved out buf) \<Rightarrow>
                               Some (returned out ViaPopupSource [(out, buf)] False)
                           | Some HtmlDetected \<Rightarrow> None
                           | Some Threw \<Rightarrow> None
                           | None \<Rightarrow> None)))))"

text \<open>Step 1, the download event: \<open>None\<close> when there is none or saving it throws.\<close>

definition download_block :: "platform \<Rightarrow> world \<Rightarrow> jsstring \<Rightarrow> jsstring \<Rightarrow> outcome option" where
  "download_block P w saveBase defaultExt =
     (case w_download w of
        None \<Rightarrow> None
      | Some dl \<Rightarrow>
          (let suggested = (if dl_suggestedFilename dl = [] then js ''download''
                            else dl_suggestedFilename dl);
               ext = (if extname P suggested = [] then [46] @ defaultExt else extname P suggested);
               out = saveBase @ ext
           in if dl_saves dl
              then Some (returned out ViaDownload [(out, dl_content dl)] (w_popup w \<noteq> None))
              else None))"

text \<open>What follows the popup: the context's responses, the original href, the OS folder.\<close>

definition after_popup :: "platform \<Rightarrow> world \<Rightarrow> jsstring \<Rightarrow> jsstring \<Rightarrow> jsstring option \<Rightarrow> outcome" where
  "after_popup P w saveBase defaultExt originalHref =
     (let no_file = \<lparr> o_result = None, o_via = NoFile, o_written = [], o_popup_open = False \<rparr>;
          os_pickup =
            (if w_osFallback w
             then (case non_empty (w_picked w) of
                     None \<Rightarrow> no_file
                   | Some picked \<Rightarrow>
                       (let ext = (if extname P picked = [] then [46] @ defaultExt
                                   else extname P picked);
                            target = saveBase @ ext
                        in if w_writes w then returned target ViaOsPickup [] False else no_file))
             else no_file);
          by_href =
            (case non_empty originalHref of
               None \<Rightarrow> os_pickup
             | Some href \<Rightarrow>
                 (case non_empty (w_savedByHref w) of
                    Some savedByHref \<Rightarrow> returned savedByHref ViaOriginalHref [] False
                  | None \<Rightarrow> os_pickup))
      in case sniffFileResponse (w_respBucket w) of
           None \<Rightarrow> by_href
         | Some fileResp \<Rightarrow>
             (case save_page_response P (w_writes w) fileResp saveBase defaultExt of
                Saved out buffer \<Rightarrow> returned out ViaPageResponse [(out, buffer)] False
              | HtmlDetected \<Rightarrow>
                  \<lparr> o_result = None, o_via = HtmlRejected, o_written = [], o_popup_open = False \<rparr>
              | Threw \<Rightarrow> by_href))"

text \<open>
  While the events are collected: a popup whose URL contains \<open>/pa/paFile.php\<close> is
  handed to \<open>extractPdfFromHtml\<close>, and a file it extracts ends the call.
\<close>

definition early_extraction :: "world \<Rightarrow> jsstring option" where
  "early_extraction w =
     (case w_popup w of
        None \<Rightarrow> None
      | Some pop \<Rightarrow>
          if str_includes (js ''/pa/paFile.php'') (pp_url pop)
          then non_empty (w_extractedPdf w) else None)"

definition clickResolveAndSaveV2 ::
  "platform \<Rightarrow> world \<Rightarrow> jsstring \<Rightarrow> jsstring \<Rightarrow> jsstring option \<Rightarrow> outcome" where
  "clickResolveAndSaveV2 P w saveBase code originalHref =
     (let defaultExt = defaultExtFromCode code
      in if \<not> w_mkdir w
         then \<lparr> o_result = None, o_via = Failed, o_written = [], o_popup_open = False \<rparr>
         else
           (case early_extraction w of
                 Some extractedPdf \<Rightarrow> returned extractedPdf ViaPopupExtraction [] False
               | None \<Rightarrow>
                   if \<not> w_pageStays w
                   then \<lparr> o_result = None, o_via = Failed, o_written = [],
                          o_popup_open = (w_popup w \<noteq> None) \<rparr>
                   else
                   (case download_block P w saveBase defaultExt of
                      Some res \<Rightarrow> res
                    | None \<Rightarrow>
                        (let from_popup =
                               (case w_popup w of
                                  None \<Rightarrow> None
                                | Some pop \<Rightarrow> popup_block P (w_writes w) pop saveBase defaultExt)
                         in case from_popup of
                              Some res \<Rightarrow> res
                            | None \<Rightarrow> after_popup P w saveBase defaultExt originalHref))))"

section \<open>The resolver of the batch runner: UrlResolver.resolveLinkBased\<close>

text \<open>
  What the resolver observes after its click: the error of a click that throws, the URL of
  a page the context opened, the URL and suggested file name of a download, the URL of a
  popup the page reported, the page's URL afterwards, and the requests captured so far.
\<close>

record link_world =
  lw_clickError :: "jsstring option"
  lw_newPage :: "jsstring option"
  lw_download :: "(jsstring \<times> jsstring) option"
  lw_popup :: "jsstring option"
  lw_currentUrl :: jsstring
  lw_captured :: "jsstring \<Rightarrow> (jsstring \<times> jsstring option) option"

datatype page_handle = NewPage | PopupPage

definition unresolved :: "jsstring \<Rightarrow> ResolvedUrl" where
  "unresolved href =
     \<lparr> ru_originalHref = href, ru_finalUrl = [], ru_method = js ''GET'', ru_requestBody = None,
       ru_contentType = None, ru_filename = None, ru_success = False, ru_error = None \<rparr>"

definition with_captured :: "link_world \<Rightarrow> ResolvedUrl \<Rightarrow> ResolvedUrl" where
  "with_captured w result =
     (if ru_success result
      then (case lw_captured w (ru_finalUrl result) of
              None \<Rightarrow> result
            | Some (method, body) \<Rightarrow>
                result \<lparr> ru_method := (if method = [] then js ''GET'' else method),
                         ru_requestBody := body \<rparr>)
      else result)"

text \<open>The result, and the handles on which \<open>close()\<close> was called.\<close>

definition resolveLinkBased :: "link_world \<Rightarrow> DocumentCandidate \<Rightarrow> ResolvedUrl \<times> page_handle list" where
  "resolveLinkBased w candidate =
     (let href = dc_href candidate
      in if starts_with (js ''http'') href \<and> \<not> str_includes (js ''javascript:'') href
         then ((unresolved href) \<lparr> ru_finalUrl := href, ru_success := True \<rparr>, [])
         else
           (case lw_clickError w of
              Some message \<Rightarrow> ((unresolved href) \<lparr> ru_error := Some message \<rparr>, [])
            | None \<Rightarrow>
                (case lw_download w of
                   Some (url, suggested) \<Rightarrow>
                     (with_captured w ((unresolved href)
                        \<lparr> ru_finalUrl := url, ru_filename := Some suggested, ru_success := True \<rparr>), [])
                 | None \<Rightarrow>
                     (case lw_newPage w of
                        Some url \<Rightarrow>
                          (with_captured w ((unresolved href)
                             \<lparr> ru_finalUrl := url, ru_success := True \<rparr>), [NewPage])
                      | None \<Rightarrow>
                          (case lw_popup w of
                             Some url \<Rightarrow>
                               (with_captured w ((unresolved href)
                                  \<lparr> ru_finalUrl := url, ru_success := True \<rparr>), [PopupPage])
                           | None \<Rightarrow>
                               if lw_currentUrl w \<noteq> href
                               then (with_captured w ((unresolved href)
                                       \<lparr> ru_finalUrl := lw_currentUrl w, ru_success := True \<rparr>), [])
                               else ((unresolved href)
                                       \<lparr> ru_error := Some (js ''No URL change detected'') \<rparr>, []))))))"

section \<open>The transport: Downloader.performDownload\<close>

text \<open>
  \<open>findUniqueFilename\<close> of \<open>utils/fs.ts\<close>: \<open>present\<close> says which paths exist, \<open>stamp\<close> is
  what \<open>Date.now()\<close> prints when the counter passes 1000.
\<close>

function findUnique_loop ::
  "platform \<Rightarrow> (jsstring \<Rightarrow> bool) \<Rightarrow> jsstring \<Rightarrow> jsstring \<Rightarrow> jsstring \<Rightarrow> jsstring \<Rightarrow> jsstring \<Rightarrow> nat \<Rightarrow> jsstring" where
  "findUnique_loop P present stamp dir name ext candidateFilename counter =
     (if present (join_path P dir candidateFilename)
      then (if counter + 1 > 1000 then name @ [95] @ stamp @ ext
            else findUnique_loop P present stamp dir name ext
                   (name @ [95] @ show_nat counter @ ext) (counter + 1))
      else candidateFilename)"
  by pat_completeness auto
termination
  by (relation "measure (\<lambda>(P, present, stamp, dir, name, ext, candidateFilename, counter). 1001 - counter)")
     auto

declare findUnique_loop.simps [simp del]

definition findUniqueFilename :: "platform \<Rightarrow> (jsstring \<Rightarrow> bool) \<Rightarrow> jsstring \<Rightarrow> jsstring \<Rightarrow> jsstring \<Rightarrow> jsstring" where
  "findUniqueFilename P present stamp basePath filename =
     (let ext = extname P filename;
          name = basename_without P filename ext;
          dir = dirname P basePath
      in findUnique_loop P present stamp dir name ext filename 1)"

text \<open>
  The answer of \<open>context.request.get\<close>: whether the status is 2xx, the text
  \<open>HTTP status: statusText\<close>, the body and the content type.
\<close>

record FetchResponse =
  fr_ok :: bool
  fr_statusLine :: jsstring
  fr_body :: bytes
  fr_contentType :: "jsstring option"

definition error_words :: "bytes \<Rightarrow> bool" where
  "error_words buffer =
     (let text = take 200 buffer
      in str_includes (js ''error'') text \<or> str_includes (js ''not found'') text
         \<or> str_includes (js ''403'') text \<or> str_includes (js ''404'') text)"

text \<open>
  \<open>performDownload\<close>: \<open>fetched\<close> is the response or the message of the error the request
  throws, \<open>fs_error\<close> the message of the error the file system throws, if it does.  The
  result is what the method returns or throws, and the files it has written by then.
\<close>

definition performDownload ::
  "platform \<Rightarrow> (jsstring \<Rightarrow> bool) \<Rightarrow> jsstring \<Rightarrow> jsstring option \<Rightarrow> jsstring + FetchResponse \<Rightarrow>
   jsstring \<Rightarrow> jsstring \<Rightarrow> (jsstring + TransportResult) \<times> (jsstring \<times> bytes) list" where
  "performDownload P present stamp fs_error fetched outputPath filename =
     (case fs_error of
        Some message \<Rightarrow> (Inl message, [])
      | None \<Rightarrow>
          (case fetched of
             Inl message \<Rightarrow> (Inl message, [])
           | Inr response \<Rightarrow>
               if \<not> fr_ok response then (Inl (js ''HTTP '' @ fr_statusLine response), [])
               else
                 (let buffer = fr_body response;
                      contentType = fr_contentType response
                  in if length buffer < 512 \<and> error_words buffer
                     then (Inl (js ''Downloaded content appears to be an error page''), [])
                     else
                       (let hash = md5_hex P buffer;
                            uniqueFilename = findUniqueFilename P present stamp
                                               (join_path P outputPath filename) filename;
                            finalPath = join_path P outputPath uniqueFilename
                        in if \<not> (512 \<le> length buffer)
                           then (Inl (js ''Downloaded file failed integrity check''),
                                 [(finalPath, buffer)])
                           else (Inr \<lparr> tr_success = True, tr_path = Some finalPath,
                                       tr_size = int (length buffer), tr_hash = Some hash,
                                       tr_error = None, tr_contentType = contentType \<rparr>,
                                 [(finalPath, buffer)])))))"

text \<open>
  A platform for the concrete runs below: POSIX paths made of plain names, a
  \<open>decodeURIComponent\<close> that is applied to strings without percent signs, and a digest
  whose value does not matter.
\<close>

definition ex_platform :: platform where
  "ex_platform =
     \<lparr> extname = (\<lambda>p. if 46 \<in> set p then 46 # rev (takeWhile (\<lambda>c. c \<noteq> 46) (rev p)) else []),
       basename = (\<lambda>p. rev (takeWhile (\<lambda>c. c \<noteq> 47) (rev p))),
       basename_without = (\<lambda>p ext. take (length p - length ext) p),
       dirname = (\<lambda>p. rev (drop 1 (dropWhile (\<lambda>c. c \<noteq> 47) (rev p)))),
       join_path = (\<lambda>dir name. dir @ [47] @ name),
       decodeURIComponent = Some,
       md5_hex = (\<lambda>buffer. js ''d41d8cd98f00b204e9800998ecf8427e'') \<rparr>"

definition html_page :: bytes where
  "html_page = js ''<!DOCTYPE html><html><body>Login required</body></html>''"

definition html_padded :: bytes where
  "html_padded = html_page @ replicate 600 32"

definition empty_dir :: "jsstring \<Rightarrow> bool" where
  "empty_dir p = False"

definition pdf_fetch :: "bytes \<Rightarrow> FetchResponse" where
  "pdf_fetch body =
     \<lparr> fr_ok = True, fr_statusLine = js ''200: OK'', fr_body = body,
       fr_contentType = Some (js ''application/pdf'') \<rparr>"

definition pdf_response :: "bytes \<Rightarrow> Response" where
  "pdf_response body =
     \<lparr> rs_status = 200, rs_contentType = js ''application/pdf'', rs_contentDisposition = [],
       rs_body = Some body \<rparr>"

definition quiet_popup :: "jsstring \<Rightarrow> Popup" where
  "quiet_popup url =
     \<lparr> pp_url = url, pp_loads = True, pp_responses = [], pp_savedByButton = None,
       pp_savedByDirect = None, pp_domSrc = None, pp_srcResponse = None \<rparr>"

definition quiet_world :: world where
  "quiet_world =
     \<lparr> w_mkdir = True, w_pageStays = True, w_download = None, w_popup = None,
       w_extractedPdf = None, w_respBucket = [], w_savedByHref = None, w_osFallback = False,
       w_picked = None, w_writes = True \<rparr>"

definition pdf_download :: Download where
  "pdf_download = \<lparr> dl_suggestedFilename = js ''report.pdf'', dl_content = js ''%PDF-1.4'',
                    dl_saves = True \<rparr>"

section \<open>Direct download URLs\<close>

text \<open>
  A URL as the platform's \<open>URL\<close> class holds it: what precedes the path, the path, the
  query (the text after the question mark, \<open>None\<close> when the URL has none) and the
  fragment.  The query of a URL is ASCII text, so its code units are its bytes.  A URL
  such as \<open>mailto:...\<close> has an opaque path, which the setter of \<open>pathname\<close> leaves as it
  is.  The constructor \<open>new URL(input, base)\<close> is the platform's; it is a parameter
  \<open>parse\<close> that answers \<open>None\<close> when the constructor throws.
\<close>

record URL =
  u_origin :: jsstring
  u_pathname :: jsstring
  u_opaque :: bool
  u_query :: "jsstring option"
  u_hash :: jsstring

definition set_pathname :: "jsstring \<Rightarrow> URL \<Rightarrow> URL" where
  "set_pathname path u = (if u_opaque u then u else u \<lparr> u_pathname := path \<rparr>)"

text \<open>The platform's UTF-8 encoder and decoder, between strings and bytes.\<close>

record codec =
  utf8_encode :: "jsstring \<Rightarrow> nat list"
  utf8_decode :: "nat list \<Rightarrow> jsstring"

text \<open>
  \<open>u.searchParams\<close> reads the query as form data.  The query is split at every \<open>&\<close>; an
  empty piece is skipped; a piece is a name and a value around its first \<open>=\<close>, or a name
  alone; in both every \<open>+\<close> stands for a space and \<open>%\<close> with two hexadecimal digits for
  the byte they denote; the bytes are decoded as UTF-8.
\<close>

fun split_on :: "nat \<Rightarrow> nat list \<Rightarrow> nat list list" where
  "split_on sep [] = [[]]"
| "split_on sep (b # bs) =
     (if b = sep then [] # split_on sep bs
      else (case split_on sep bs of
              [] \<Rightarrow> [[b]]
            | piece # pieces \<Rightarrow> (b # piece) # pieces))"

definition is_hex_digit :: "nat \<Rightarrow> bool" where
  "is_hex_digit b = ((48 \<le> b \<and> b \<le> 57) \<or> (65 \<le> b \<and> b \<le> 70) \<or> (97 \<le> b \<and> b \<le> 102))"

definition hex_value :: "nat \<Rightarrow> nat" where
  "hex_value b = (if b \<le> 57 then b - 48 else if b \<le> 70 then b - 55 else b - 87)"

fun percent_decode :: "nat list \<Rightarrow> nat list" where
  "percent_decode (b # h # l # rest) =
     (if b = 37 \<and> is_hex_digit h \<and> is_hex_digit l
      then (16 * hex_value h + hex_value l) # percent_decode rest
      else b # percent_decode (h # l # rest))"
| "percent_decode bs = bs"

definition plus_to_space :: "nat \<Rightarrow> nat" where
  "plus_to_space b = (if b = 43 then 32 else b)"

definition urlencoded_tuple :: "codec \<Rightarrow> nat list \<Rightarrow> jsstring \<times> jsstring" where
  "urlencoded_tuple c bytes =
     (let name = takeWhile (\<lambda>b. b \<noteq> 61) bytes;
          val = drop 1 (dropWhile (\<lambda>b. b \<noteq> 61) bytes)
      in (utf8_decode c (percent_decode (map plus_to_space name)),
          utf8_decode c (percent_decode (map plus_to_space val))))"

definition urlencoded_parse :: "codec \<Rightarrow> jsstring \<Rightarrow> (jsstring \<times> jsstring) list" where
  "urlencoded_parse c input =
     map (urlencoded_tuple c) (filter (\<lambda>bytes. bytes \<noteq> []) (split_on 38 input))"

definition searchParams :: "codec \<Rightarrow> URL \<Rightarrow> (jsstring \<times> jsstring) list" where
  "searchParams c u = (case u_query u of None \<Rightarrow> [] | Some q \<Rightarrow> urlencoded_parse c q)"

text \<open>
  A change of \<open>searchParams\<close> writes the query again from the list of pairs: names and
  values as UTF-8 bytes, a space as \<open>+\<close>, a letter, a digit and \<open>* - . _\<close> as they are,
  every other byte as \<open>%\<close> and two upper-case hexadecimal digits; \<open>=\<close> inside a pair and
  \<open>&\<close> between pairs.  A list that writes as the empty text leaves the URL without query.
\<close>

definition urlencoded_keeps :: "nat \<Rightarrow> bool" where
  "urlencoded_keeps b =
     ((48 \<le> b \<and> b \<le> 57) \<or> (65 \<le> b \<and> b \<le> 90) \<or> (97 \<le> b \<and> b \<le> 122)
      \<or> b = 42 \<or> b = 45 \<or> b = 46 \<or> b = 95)"

definition hex_digit :: "nat \<Rightarrow> nat" where
  "hex_digit n = (if n < 10 then 48 + n else 55 + n)"

definition urlencoded_byte :: "nat \<Rightarrow> jsstring" where
  "urlencoded_byte b =
     (if b = 32 then [43]
      else if urlencoded_keeps b then [b]
      else [37, hex_digit (b div 16), hex_digit (b mod 16)])"

definition urlencoded_string :: "codec \<Rightarrow> jsstring \<Rightarrow> jsstring" where
  "urlencoded_string c s = concat (map urlencoded_byte (utf8_encode c s))"

definition urlencoded_serialize :: "codec \<Rightarrow> (jsstring \<times> jsstring) list \<Rightarrow> jsstring" where
  "urlencoded_serialize c tuples =
     foldl (\<lambda>output tuple.
              (if output \<noteq> [] then output @ [38] else output)
              @ urlencoded_string c (fst tuple) @ [61] @ urlencoded_string c (snd tuple))
       [] tuples"

definition update_query :: "codec \<Rightarrow> (jsstring \<times> jsstring) list \<Rightarrow> URL \<Rightarrow> URL" where
  "update_query c tuples u =
     (let serializedQuery = urlencoded_serialize c tuples
      in u \<lparr> u_query := (if serializedQuery = [] then None else Some serializedQuery) \<rparr>)"

definition sp_has :: "jsstring \<Rightarrow> (jsstring \<times> jsstring) list \<Rightarrow> bool" where
  "sp_has name params = (\<exists>p \<in> set params. fst p = name)"

definition sp_get :: "jsstring \<Rightarrow> (jsstring \<times> jsstring) list \<Rightarrow> jsstring option" where
  "sp_get name params = map_option snd (find (\<lambda>p. fst p = name) params)"

definition sp_append :: "jsstring \<Rightarrow> jsstring \<Rightarrow> (jsstring \<times> jsstring) list \<Rightarrow> (jsstring \<times> jsstring) list" where
  "sp_append name val params = params @ [(name, val)]"

text \<open>
  \<open>searchParams.set\<close>: the first pair of that name takes the value and the other pairs of
  that name are removed; without such a pair the pair is appended.
\<close>

fun sp_set_first :: "jsstring \<Rightarrow> jsstring \<Rightarrow> (jsstring \<times> jsstring) list \<Rightarrow> (jsstring \<times> jsstring) list" where
  "sp_set_first name val [] = []"
| "sp_set_first name val (p # ps) =
     (if fst p = name then (name, val) # filter (\<lambda>q. fst q \<noteq> name) ps
      else p # sp_set_first name val ps)"

definition sp_set :: "jsstring \<Rightarrow> jsstring \<Rightarrow> (jsstring \<times> jsstring) list \<Rightarrow> (jsstring \<times> jsstring) list" where
  "sp_set name val params =
     (if sp_has name params then sp_set_first name val params else sp_append name val params)"

definition ends_with :: "jsstring \<Rightarrow> jsstring \<Rightarrow> bool" where
  "ends_with pat s = (length pat \<le> length s \<and> drop (length s - length pat) s = pat)"

text \<open>
  The capture of \<open>/fileView\(['"](.*?)['"]/\<close>: at the leftmost \<open>fileView(\<close> that is followed
  by a quote and, with no line terminator in between, by another one, the text between
  the two.
\<close>

definition is_quote :: "nat \<Rightarrow> bool" where
  "is_quote c = (c = 39 \<or> c = 34)"

definition is_line_terminator :: "nat \<Rightarrow> bool" where
  "is_line_terminator c = (c = 10 \<or> c = 13 \<or> c = 8232 \<or> c = 8233)"

definition fileView_at :: "jsstring \<Rightarrow> jsstring option" where
  "fileView_at s =
     (if starts_with (js ''fileView('') s
      then (case drop 9 s of
              [] \<Rightarrow> None
            | q # r \<Rightarrow>
                if is_quote q
                then (let seg = takeWhile (\<lambda>c. \<not> is_quote c) r
                      in if length seg < length r \<and> \<not> (\<exists>c \<in> set seg. is_line_terminator c)
                         then Some seg else None)
                else None)
      else None)"

fun fileView_match :: "jsstring \<Rightarrow> jsstring option" where
  "fileView_match [] = None"
| "fileView_match (c # cs) =
     (case fileView_at (c # cs) of Some cap \<Rightarrow> Some cap | None \<Rightarrow> fileView_match cs)"

text \<open>\<open>if (u.searchParams.has('tp')) u.searchParams.set('tp', 'D'); else u.searchParams.append('tp', 'D')\<close>\<close>

definition force_tp :: "codec \<Rightarrow> URL \<Rightarrow> URL" where
  "force_tp c u =
     (if sp_has (js ''tp'') (searchParams c u)
      then update_query c (sp_set (js ''tp'') (js ''D'') (searchParams c u)) u
      else update_query c (sp_append (js ''tp'') (js ''D'') (searchParams c u)) u)"

text \<open>
  The reference that \<open>toDirectDownloadFromHref\<close> hands to the URL constructor: the path
  wrapped in a \<open>javascript:fileView(...)\<close> reference, put under \<open>/pa/\<close>, or the href itself.
  The result stands for the text that \<open>u.toString()\<close> writes from it.
\<close>

definition unwrapped :: "jsstring \<Rightarrow> jsstring option" where
  "unwrapped href =
     (if starts_with (js ''javascript:fileView('') href then fileView_match href else None)"

definition toDirectDownloadFromHref ::
  "codec \<Rightarrow> (jsstring \<Rightarrow> jsstring option \<Rightarrow> URL option) \<Rightarrow> jsstring \<Rightarrow> jsstring \<Rightarrow> URL option" where
  "toDirectDownloadFromHref c parse href baseUrl =
     (case unwrapped href of
        Some captured \<Rightarrow>
          (let filePath = (if \<not> starts_with (js ''/pa/'') captured then js ''/pa/'' @ captured
                           else captured)
           in case parse filePath (Some baseUrl) of
                None \<Rightarrow> None
              | Some u \<Rightarrow> Some (force_tp c u))
      | None \<Rightarrow>
          (case parse href (Some baseUrl) of
             None \<Rightarrow> None
           | Some u \<Rightarrow>
               (let u' = (if ends_with (js ''/pa/paView.php'') (u_pathname u)
                          then set_pathname (js ''/pa/paFile.php'') u else u)
                in Some (force_tp c u'))))"

definition toDirectDownloadUrl ::
  "codec \<Rightarrow> (jsstring \<Rightarrow> jsstring option \<Rightarrow> URL option) \<Rightarrow> jsstring \<Rightarrow> URL option" where
  "toDirectDownloadUrl c parse viewUrl =
     (case parse viewUrl None of
        None \<Rightarrow> None
      | Some u \<Rightarrow>
          if str_includes (js ''/pa/paFile.php'') (u_pathname u)
          then (if sp_get (js ''tp'') (searchParams c u) \<noteq> Some (js ''D'')
                then Some (update_query c (sp_set (js ''tp'') (js ''D'') (searchParams c u)) u)
                else Some u)
          else None)"

text \<open>The reference the constructor is called with.\<close>

definition reference_of :: "jsstring \<Rightarrow> jsstring" where
  "reference_of href =
     (case unwrapped href of
        Some captured \<Rightarrow> if \<not> starts_with (js ''/pa/'') captured then js ''/pa/'' @ captured
                         else captured
      | None \<Rightarrow> href)"

text \<open>
  The parameters of a URL with \<open>tp\<close> forced: one \<open>tp\<close> of value \<open>D\<close> where the first \<open>tp\<close>
  was, or at the end when there was none, and every other parameter in its place.
\<close>

definition forced :: "(jsstring \<times> jsstring) list \<Rightarrow> (jsstring \<times> jsstring) list" where
  "forced params = sp_set (js ''tp'') (js ''D'') params"

definition others :: "(jsstring \<times> jsstring) list \<Rightarrow> (jsstring \<times> jsstring) list" where
  "others params = filter (\<lambda>p. fst p \<noteq> js ''tp'') params"

text \<open>
  A string that the encoder and the decoder give back as it is, in bytes.  Every string
  that the decoder has produced is one.
\<close>

definition round_trips :: "codec \<Rightarrow> jsstring \<Rightarrow> bool" where
  "round_trips c s =
     (utf8_decode c (utf8_encode c s) = s \<and> (\<forall>b \<in> set (utf8_encode c s). b < 256))"

text \<open>
  Examples.  On ASCII text the encoder and the decoder change nothing.  \<open>fixed_parser u\<close>
  is the constructor at the one reference that it parses to \<open>u\<close>, and \<open>throwing_parser\<close>
  the constructor at a reference that it refuses, such as \<open>http://\<close>.
\<close>

definition ascii_codec :: codec where
  "ascii_codec = \<lparr> utf8_encode = (\<lambda>s. s), utf8_decode = (\<lambda>bytes. bytes) \<rparr>"

definition fixed_parser :: "URL \<Rightarrow> jsstring \<Rightarrow> jsstring option \<Rightarrow> URL option" where
  "fixed_parser u input base = Some u"

definition ex_view_url :: URL where
  "ex_view_url =
     \<lparr> u_origin = js ''https://www.tankauction.com'', u_pathname = js ''/pa/paView.php'',
       u_opaque = False, u_query = Some (js ''cltrNo=1778958&tp=J&chkNo=1&bfree=''), u_hash = [] \<rparr>"

definition ex_view_href :: jsstring where
  "ex_view_href = js ''https://www.tankauction.com/pa/paView.php?cltrNo=1778958&tp=J&chkNo=1&bfree=''"

definition ex_file_href :: jsstring where
  "ex_file_href = js ''https://www.tankauction.com/pa/paFile.php?cltrNo=1778958&tp=J&chkNo=1&bfree=''"

definition ex_file_url :: URL where
  "ex_file_url = ex_view_url \<lparr> u_pathname := js ''/pa/paFile.php'' \<rparr>"

definition throwing_parser :: "jsstring \<Rightarrow> jsstring option \<Rightarrow> URL option" where
  "throwing_parser input base = None"

definition ex_direct_href :: jsstring where
  "ex_direct_href = js ''https://www.tankauction.com/pa/paFile.php?cltrNo=1778958&tp=D&chkNo=1&bfree=''"

definition ex_direct_url :: URL where
  "ex_direct_url = ex_file_url \<lparr> u_query := Some (js ''cltrNo=1778958&tp=D&chkNo=1&bfree='') \<rparr>"

definition ex_spaced_href :: jsstring where
  "ex_spaced_href = js ''https://www.tankauction.com/pa/paFile.php?title=a%20b&tp=J''"

definition ex_spaced_url :: URL where
  "ex_spaced_url = ex_file_url \<lparr> u_query := Some (js ''title=a%20b&tp=J'') \<rparr>"

definition ex_twice_href :: jsstring where
  "ex_twice_href = js ''https://www.tankauction.com/pa/paFile.php?tp=D&tp=J''"

definition ex_twice_url :: URL where
  "ex_twice_url = ex_file_url \<lparr> u_query := Some (js ''tp=D&tp=J'') \<rparr>"

section \<open>The rate limiter\<close>










text \<open>Three entries for a concrete ledger: a saved file, a failed file and a recorded link.\<close>

definition ex_attachment :: "att_kind \<Rightarrow> jsstring \<Rightarrow> bool \<Rightarrow> Attachment" where
  "ex_attachment k c ok =
     \<lparr> att_kind = k, att_code = c, att_label = js ''doc'', att_url = js ''http://h/doc'',
       att_path = None, att_size = None, att_hash = None, att_ext = None, att_success = ok,
       att_error = None \<rparr>"

section \<open>Facts about sets in insertion order\<close>

lemma set_Set_add: "set (Set_add s x) = insert x (set s)"
  by (auto simp: Set_add_def)

lemma distinct_Set_add: "distinct s \<Longrightarrow> distinct (Set_add s x)"
  by (simp add: Set_add_def)

lemma set_foldl_Set_add: "set (foldl Set_add s xs) = set s \<union> set xs"
  by (induction xs arbitrary: s) (simp_all add: set_Set_add)

lemma distinct_foldl_Set_add: "distinct s \<Longrightarrow> distinct (foldl Set_add s xs)"
  by (induction xs arbitrary: s) (simp_all add: distinct_Set_add)

lemma set_new_Set: "set (new_Set xs) = set xs"
  by (simp add: new_Set_def set_foldl_Set_add)

lemma distinct_new_Set: "distinct (new_Set xs)"
  by (simp add: new_Set_def distinct_foldl_Set_add)

section \<open>The ledger after an append\<close>

lemma attachments_add: "md_attachments (data (add m a)) = md_attachments (data m) @ [a]"
  by (simp add: add_def updateStats_def Let_def)

lemma requiredCodes_add: "requiredCodes (add m a) = requiredCodes m"
  by (simp add: add_def updateStats_def Let_def)

lemma missing_updateStats:
  "md_missing (data (updateStats m)) = missing_of (requiredCodes m) (md_attachments (data m))"
  unfolding updateStats_def missing_of_def successful_files_def Let_def
  by (simp add: set_new_Set)

lemma missing_add:
  "getMissing (add m a) = missing_of (requiredCodes m) (md_attachments (data m) @ [a])"
  unfolding getMissing_def add_def by (simp add: missing_updateStats)

lemma missing_adds:
  "as \<noteq> [] \<Longrightarrow>
   getMissing (foldl add m as) = missing_of (requiredCodes m) (md_attachments (data m) @ as)"
proof (induction as arbitrary: m rule: rev_induct)
  case Nil
  then show ?case by simp
next
  case (snoc a as)
  have att: "md_attachments (data (foldl add m as)) = md_attachments (data m) @ as" for m
    by (induction as arbitrary: m) (simp_all add: attachments_add)
  have req: "requiredCodes (foldl add m as) = requiredCodes m" for m
    by (induction as arbitrary: m) (simp_all add: requiredCodes_add)
  show ?case by (simp add: missing_add att req)
qed

lemma set_missing_of:
  "set (missing_of required atts) =
   set required - {att_code a | a. a \<in> set atts \<and> att_success a \<and> att_kind a = File}"
  by (auto simp: missing_of_def successful_files_def)

lemma sorted_missing_of: "sorted (missing_of required atts)"
  by (simp add: missing_of_def)

lemma distinct_missing_of: "distinct required \<Longrightarrow> distinct (missing_of required atts)"
  by (simp add: missing_of_def)

lemma missing_updateStats_v1:
  "v1_missing (updateStats_v1 m) =
   sort (filter (\<lambda>code. code \<notin> a1_code ` set (filter a1_success (v1_attachments m)))
           (v1_requiredCodes m))"
  unfolding updateStats_v1_def Let_def by (simp add: set_new_Set)

lemma missing_add_v1:
  "getMissing_v1 (add_v1 m a) =
   sort (filter (\<lambda>code. code \<notin> a1_code ` set (filter a1_success (v1_attachments m @ [a])))
           (v1_requiredCodes m))"
  unfolding getMissing_v1_def add_v1_def missing_updateStats_v1 by simp

lemma js_simps:
  "js [] = []"
  "js (c # cs) = of_char c # js cs"
  by (simp_all add: js_def)

lemma attachments_adds:
  "md_attachments (data (foldl add m as)) = md_attachments (data m) @ as"
  by (induction as arbitrary: m) (simp_all add: attachments_add)

lemma attachments_adds_v1: "v1_attachments (foldl add_v1 m bs) = v1_attachments m @ bs"
  by (induction bs arbitrary: m) (simp_all add: add_v1_def updateStats_v1_def Let_def)

lemma requiredCodes_adds_v1: "v1_requiredCodes (foldl add_v1 m bs) = v1_requiredCodes m"
  by (induction bs arbitrary: m) (simp_all add: add_v1_def updateStats_v1_def Let_def)

lemma missing_adds_v1:
  "bs \<noteq> [] \<Longrightarrow>
   getMissing_v1 (foldl add_v1 m bs) =
   sort (filter (\<lambda>code. code \<notin> a1_code ` set (filter a1_success (v1_attachments m @ bs)))
           (v1_requiredCodes m))"
proof (induction bs rule: rev_induct)
  case Nil
  then show ?case by simp
next
  case (snoc b bs)
  show ?case
    by (simp add: missing_add_v1 attachments_adds_v1 requiredCodes_adds_v1)
qed

text \<open>
  The ledger of the constructor, before any append, stores an empty \<open>missing\<close> that is not
  computed from anything: with the default required categories it answers that none is
  missing.  The first append replaces it.
\<close>

lemma fresh_manifest_stores_empty_missing:
  "getMissing (Manifest_new now url title prefix required) = []"
  "hasRequiredCodes (Manifest_new now url title prefix required)"
  "getMissing_v1 (Manifest_v1_new now url title prefix required) = []"
  by (simp_all add: getMissing_def hasRequiredCodes_def Manifest_new_def getMissing_v1_def
      Manifest_v1_new_def)

text \<open>
  C1.  The claim: in every state that a sequence of appends leads to, the ledger of the
  constructor included, \<open>missing\<close> is the sorted list of the required categories that are
  not the category of a successful file entry, computed from the entries.  After one
  append or more it is, from the ledger of the constructor and from any other ledger, in
  both classes (the earlier one has no entry kinds, so every successful entry counts).
  The ledger of the constructor itself has no entries and stores an empty \<open>missing\<close> that
  no computation produced: with the default required categories it answers that nothing
  is missing and that it has the required codes, where its entries leave all five
  missing.  The pipeline saves this ledger when the page has no links, and reports its
  \<open>missing\<close> when no link passes the filter.
\<close>

theorem C1_fresh_ledger_reports_nothing_missing:
  "getMissing (foldl add m (a # as))
     = missing_of (requiredCodes m) (md_attachments (data m) @ a # as)
   \<and> getMissing (foldl add (Manifest_new now url title prefix required) (a # as))
     = missing_of (new_Set required) (a # as)
   \<and> set (getMissing (foldl add (Manifest_new now url title prefix required) (a # as)))
     = set required - {att_code x | x. x \<in> set (a # as) \<and> att_success x \<and> att_kind x = File}
   \<and> sorted (getMissing (foldl add (Manifest_new now url title prefix required) (a # as)))
   \<and> distinct (getMissing (foldl add (Manifest_new now url title prefix required) (a # as)))
   \<and> set (getMissing_v1 (foldl add_v1 (Manifest_v1_new now url title prefix required) (b # bs)))
     = set required - {a1_code x | x. x \<in> set (b # bs) \<and> a1_success x}
   \<and> sorted (getMissing_v1 (foldl add_v1 (Manifest_v1_new now url title prefix required) (b # bs)))
   \<and> distinct (getMissing_v1 (foldl add_v1 (Manifest_v1_new now url title prefix required) (b # bs)))
   \<and> md_attachments (data (Manifest_new now url title prefix defaultRequiredCodes)) = []
   \<and> getMissing (Manifest_new now url title prefix defaultRequiredCodes) = []
   \<and> hasRequiredCodes (Manifest_new now url title prefix defaultRequiredCodes)
   \<and> missing_of (requiredCodes (Manifest_new now url title prefix defaultRequiredCodes))
        (md_attachments (data (Manifest_new now url title prefix defaultRequiredCodes)))
     = [js ''AP'', js ''BLD'', js ''REG'', js ''RS'', js ''ZON'']
   \<and> set (getMissing (Manifest_new now url title prefix defaultRequiredCodes))
     \<noteq> set defaultRequiredCodes
         - {att_code x | x. x \<in> set (md_attachments
                                        (data (Manifest_new now url title prefix defaultRequiredCodes)))
                            \<and> att_success x \<and> att_kind x = File}
   \<and> v1_attachments (Manifest_v1_new now url title prefix defaultRequiredCodes) = []
   \<and> getMissing_v1 (Manifest_v1_new now url title prefix defaultRequiredCodes) = []
   \<and> set (getMissing_v1 (Manifest_v1_new now url title prefix defaultRequiredCodes))
     \<noteq> set defaultRequiredCodes
         - {a1_code x | x. x \<in> set (v1_attachments
                                       (Manifest_v1_new now url title prefix defaultRequiredCodes))
                           \<and> a1_success x}"
proof -
  have ne: "a # as \<noteq> []" "b # bs \<noteq> []" by simp_all
  have n: "requiredCodes (Manifest_new now url title prefix r) = new_Set r"
    "md_attachments (data (Manifest_new now url title prefix r)) = []" for r
    by (simp_all add: Manifest_new_def)
  have g: "getMissing (foldl add (Manifest_new now url title prefix required) (a # as))
           = missing_of (new_Set required) (a # as)"
    using missing_adds [OF ne(1), of "Manifest_new now url title prefix required"]
    by (simp add: n)
  have v: "getMissing_v1 (foldl add_v1 (Manifest_v1_new now url title prefix required) (b # bs))
           = sort (filter (\<lambda>code. code \<notin> a1_code ` set (filter a1_success (b # bs)))
                     (new_Set required))"
    using missing_adds_v1 [OF ne(2), of "Manifest_v1_new now url title prefix required"]
    by (simp add: Manifest_v1_new_def)
  have vs: "set (sort (filter (\<lambda>code. code \<notin> a1_code ` set (filter a1_success (b # bs)))
                         (new_Set required)))
            = set required - {a1_code x | x. x \<in> set (b # bs) \<and> a1_success x}"
    by (auto simp: set_new_Set)
  have A: "getMissing (foldl add m (a # as))
             = missing_of (requiredCodes m) (md_attachments (data m) @ a # as)"
    using missing_adds [OF ne(1), of m] by simp
  have B: "set (getMissing (foldl add (Manifest_new now url title prefix required) (a # as)))
             = set required - {att_code x | x. x \<in> set (a # as) \<and> att_success x \<and> att_kind x = File}
         \<and> sorted (getMissing (foldl add (Manifest_new now url title prefix required) (a # as)))
         \<and> distinct (getMissing (foldl add (Manifest_new now url title prefix required) (a # as)))"
    unfolding g
    by (simp only: set_missing_of sorted_missing_of distinct_missing_of distinct_new_Set
        set_new_Set simp_thms)
  have C: "set (getMissing_v1 (foldl add_v1 (Manifest_v1_new now url title prefix required) (b # bs)))
             = set required - {a1_code x | x. x \<in> set (b # bs) \<and> a1_success x}
         \<and> sorted (getMissing_v1 (foldl add_v1 (Manifest_v1_new now url title prefix required) (b # bs)))
         \<and> distinct (getMissing_v1 (foldl add_v1 (Manifest_v1_new now url title prefix required) (b # bs)))"
    unfolding v vs [symmetric] by (simp add: distinct_new_Set)
  have d: "new_Set defaultRequiredCodes = defaultRequiredCodes"
    by (simp add: new_Set_def Set_add_def defaultRequiredCodes_def js_simps)
  have m0: "missing_of defaultRequiredCodes [] = [js ''AP'', js ''BLD'', js ''REG'', js ''RS'', js ''ZON'']"
    by (simp add: missing_of_def successful_files_def defaultRequiredCodes_def js_simps)
  have s0: "set defaultRequiredCodes \<noteq> {}"
    by (simp add: defaultRequiredCodes_def)
  have D: "md_attachments (data (Manifest_new now url title prefix defaultRequiredCodes)) = []
         \<and> getMissing (Manifest_new now url title prefix defaultRequiredCodes) = []
         \<and> hasRequiredCodes (Manifest_new now url title prefix defaultRequiredCodes)
         \<and> missing_of (requiredCodes (Manifest_new now url title prefix defaultRequiredCodes))
              (md_attachments (data (Manifest_new now url title prefix defaultRequiredCodes)))
           = [js ''AP'', js ''BLD'', js ''REG'', js ''RS'', js ''ZON'']"
    unfolding n d m0
    by (simp add: getMissing_def hasRequiredCodes_def Manifest_new_def)
  have E: "set (getMissing (Manifest_new now url title prefix defaultRequiredCodes))
           \<noteq> set defaultRequiredCodes
               - {att_code x | x. x \<in> set (md_attachments
                                        (data (Manifest_new now url title prefix defaultRequiredCodes)))
                                  \<and> att_success x \<and> att_kind x = File}"
    unfolding n using s0 by (simp add: getMissing_def Manifest_new_def)
  have F: "v1_attachments (Manifest_v1_new now url title prefix defaultRequiredCodes) = []
         \<and> getMissing_v1 (Manifest_v1_new now url title prefix defaultRequiredCodes) = []
         \<and> set (getMissing_v1 (Manifest_v1_new now url title prefix defaultRequiredCodes))
           \<noteq> set defaultRequiredCodes
               - {a1_code x | x. x \<in> set (v1_attachments
                                       (Manifest_v1_new now url title prefix defaultRequiredCodes))
                                 \<and> a1_success x}"
    using s0 by (simp add: getMissing_v1_def Manifest_v1_new_def)
  from A g B C D E F show ?thesis by blast
qed

lemma ex_missing_of_appends:
  "missing_of (new_Set defaultRequiredCodes)
     [ex_attachment File (js ''AP'') True, ex_attachment File (js ''REG'') False,
      ex_attachment Link (js ''ZON'') True]
   = [js ''BLD'', js ''REG'', js ''RS'', js ''ZON'']"
  by (simp add: missing_of_def successful_files_def ex_attachment_def defaultRequiredCodes_def
      new_Set_def Set_add_def js_simps)

theorem C1_fresh_ledger_witness:
  "getMissing (foldl add
      (Manifest_new (js ''t'') (js ''u'') (js ''x'') (js ''p'') defaultRequiredCodes)
      [ex_attachment File (js ''AP'') True, ex_attachment File (js ''REG'') False,
       ex_attachment Link (js ''ZON'') True])
   = [js ''BLD'', js ''REG'', js ''RS'', js ''ZON'']
   \<and> getMissing (Manifest_new (js ''t'') (js ''u'') (js ''x'') (js ''p'') defaultRequiredCodes) = []
   \<and> missing_of
        (requiredCodes (Manifest_new (js ''t'') (js ''u'') (js ''x'') (js ''p'') defaultRequiredCodes))
        (md_attachments
           (data (Manifest_new (js ''t'') (js ''u'') (js ''x'') (js ''p'') defaultRequiredCodes)))
     = [js ''AP'', js ''BLD'', js ''REG'', js ''RS'', js ''ZON'']"
proof -
  note T = C1_fresh_ledger_reports_nothing_missing
    [of "Manifest_new (js ''t'') (js ''u'') (js ''x'') (js ''p'') defaultRequiredCodes"
        "ex_attachment File (js ''AP'') True"
        "[ex_attachment File (js ''REG'') False, ex_attachment Link (js ''ZON'') True]"
        "js ''t''" "js ''u''" "js ''x''" "js ''p''" defaultRequiredCodes]
  from T have a: "getMissing (foldl add
      (Manifest_new (js ''t'') (js ''u'') (js ''x'') (js ''p'') defaultRequiredCodes)
      [ex_attachment File (js ''AP'') True, ex_attachment File (js ''REG'') False,
       ex_attachment Link (js ''ZON'') True])
    = missing_of (new_Set defaultRequiredCodes)
        [ex_attachment File (js ''AP'') True, ex_attachment File (js ''REG'') False,
         ex_attachment Link (js ''ZON'') True]"
    by blast
  from T have b: "getMissing (Manifest_new (js ''t'') (js ''u'') (js ''x'') (js ''p'') defaultRequiredCodes) = []"
    by blast
  from T have c: "missing_of
        (requiredCodes (Manifest_new (js ''t'') (js ''u'') (js ''x'') (js ''p'') defaultRequiredCodes))
        (md_attachments
           (data (Manifest_new (js ''t'') (js ''u'') (js ''x'') (js ''p'') defaultRequiredCodes)))
     = [js ''AP'', js ''BLD'', js ''REG'', js ''RS'', js ''ZON'']"
    by blast
  from a b c show ?thesis
    unfolding ex_missing_of_appends by blast
qed

lemma tally_entry_cases:
  "tally_entry t e =
     (if counted e
      then \<lparr> t_found = Set_add (t_found t) (code_of e), t_size = t_size t + me_size e,
             t_count = t_count t + 1 \<rparr>
      else t)"
  by (simp add: tally_entry_def counted_def truthy_def code_of_def split: option.splits)

lemma make_entry_fields:
  "me_code (make_entry stamp c r d) = dc_code c"
  "me_success (make_entry stamp c r d) = dr_success d"
  "me_size (make_entry stamp c r d) = dr_size d"
  "me_filename (make_entry stamp c r d) = dr_filename d"
  by (simp_all add: make_entry_def)

lemma tally_candidate_entry:
  "tally_candidate t c d = tally_entry t (make_entry stamp c r d)"
  unfolding tally_candidate_def tally_entry_def make_entry_fields ..

lemma foldl_tally_entry:
  "foldl tally_entry t es =
     \<lparr> t_found = foldl Set_add (t_found t) (map code_of (filter counted es)),
       t_size = t_size t + sum_list (map me_size (filter counted es)),
       t_count = t_count t + int (length (filter counted es)) \<rparr>"
  by (induction es arbitrary: t) (simp_all add: tally_entry_cases)

lemma createManifest_loop_Inr:
  "createManifest_loop clock i cs rs ds (entries, t) = Inr (entries', t') \<Longrightarrow>
   \<exists>new. entries' = entries @ new \<and> length new = length cs \<and> t' = foldl tally_entry t new"
proof (induction clock i cs rs ds "(entries, t)" arbitrary: entries t rule: createManifest_loop.induct)
  case (1 clock i rs ds)
  then show ?case by simp
next
  case (2 clock i c cs r rs d ds entries t)
  from 2 obtain new where n: "entries' = (entries @ [make_entry (clock i) c r d]) @ new"
    "length new = length cs" "t' = foldl tally_entry (tally_candidate t c d) new"
    by auto
  show ?case
    by (rule exI [of _ "make_entry (clock i) c r d # new"])
       (use n in \<open>simp add: tally_candidate_entry [of t c d "clock i" r]\<close>)
qed simp_all

lemma createManifest_Inr:
  assumes "createManifest clock write_ok prefix cs rs ds urls = Inr m"
  shows "totalCandidates m = int (length (processedFiles m))"
    and "missing m = missing_in (processedFiles m)"
    and "summary m = summary_in (totalCandidates m) (processedFiles m)"
proof -
  from assms obtain entries t where
    l: "createManifest_loop clock 0 cs rs ds ([], empty_Tally) = Inr (entries, t)"
    and w: write_ok
    by (auto simp: createManifest_def split: sum.splits if_splits)
  from createManifest_loop_Inr [OF l]
  have e: "length entries = length cs" and t: "t = foldl tally_entry empty_Tally entries"
    by auto
  have m: "m = \<lparr> casePrefix = prefix, totalCandidates = int (length cs),
                 processedFiles = entries,
                 missing = filter (\<lambda>code. code \<notin> set (t_found t)) requiredCodes_lib,
                 summary = \<lparr> foundCodes = sort (t_found t), totalSize = t_size t,
                             successCount = t_count t,
                             failCount = int (length cs) - t_count t \<rparr>,
                 metadata = \<lparr> createdAt = clock (length cs), processedUrls = urls \<rparr> \<rparr>"
    using assms l w by (simp add: createManifest_def)
  have f: "t_found t = found_in entries"
    by (simp add: t foldl_tally_entry found_in_def new_Set_def empty_Tally_def)
  show "totalCandidates m = int (length (processedFiles m))" by (simp add: m e)
  show "missing m = missing_in (processedFiles m)" by (simp add: m f missing_in_def)
  show "summary m = summary_in (totalCandidates m) (processedFiles m)"
    by (simp add: m summary_in_def f) (simp add: t foldl_tally_entry empty_Tally_def)
qed

lemma processedFiles_merge:
  "processedFiles (mergeManifests e n) = processedFiles e @ processedFiles n"
  by (simp add: mergeManifests_def Let_def)

lemma totalCandidates_merge:
  "totalCandidates (mergeManifests e n) = totalCandidates e + totalCandidates n"
  by (simp add: mergeManifests_def Let_def)

lemma missing_merge:
  "missing (mergeManifests e n) = missing_in (processedFiles e @ processedFiles n)"
  by (simp add: mergeManifests_def Let_def missing_in_def found_in_def new_Set_def
      foldl_tally_entry empty_Tally_def)

lemma summary_merge:
  "summary (mergeManifests e n) =
   summary_in (totalCandidates e + totalCandidates n) (processedFiles e @ processedFiles n)"
  by (simp add: mergeManifests_def Let_def summary_in_def found_in_def new_Set_def
      foldl_tally_entry empty_Tally_def)

lemma ledger_invariant:
  "ledger m \<Longrightarrow>
   totalCandidates m = int (length (processedFiles m)) \<and>
   missing m = missing_in (processedFiles m) \<and>
   summary m = summary_in (int (length (processedFiles m))) (processedFiles m)"
proof (induction rule: ledger.induct)
  case (created clock write_ok prefix cs rs ds urls m)
  from createManifest_Inr [OF created] show ?case by simp
next
  case (merged e n)
  then show ?case
    by (simp add: processedFiles_merge totalCandidates_merge missing_merge summary_merge)
qed

lemma set_found_in: "set (found_in es) = code_of ` {e \<in> set es. counted e}"
  by (simp add: found_in_def set_new_Set)

lemma set_found_in_append: "set (found_in (xs @ ys)) = set (found_in xs) \<union> set (found_in ys)"
  by (auto simp: set_found_in)


lemma ex_ledger_created:
  "createManifest ex_clock True (js ''case'') [ex_candidate c] [ex_resolved] [ex_download] []
   = Inr (ex_ledger c)"
  by (cases c)
     (simp_all add: createManifest_def ex_ledger_def empty_Tally_def tally_candidate_def
        ex_candidate_def ex_download_def truthy_def Set_add_def)

lemma length_three_way:
  "int (length es) = int (length (filter counted es))
     + int (length (filter (\<lambda>e. \<not> me_success e) es))
     + int (length (filter (\<lambda>e. me_success e \<and> \<not> truthy (me_code e)) es))"
  by (induction es) (auto simp: counted_def)

text \<open>
  C2.  Merging two ledgers concatenates their entry lists, prior entries first, and drops
  nothing; the found codes, the total size, the success count and the missing codes are
  recomputed from the concatenation, and the failure count is the sum of the two candidate
  totals minus the recomputed success count, which for ledgers made by this program is the
  length of the concatenation minus the success count.  Hence, for a prior ledger made by
  this program, a second run that resolves the same categories leaves \<open>missing\<close> as it
  was.
\<close>

theorem C2_merge_concatenates_and_recomputes:
  "processedFiles (mergeManifests prior fresh) = processedFiles prior @ processedFiles fresh
   \<and> summary (mergeManifests prior fresh)
       = summary_in (totalCandidates prior + totalCandidates fresh)
           (processedFiles prior @ processedFiles fresh)
   \<and> missing (mergeManifests prior fresh)
       = missing_in (processedFiles prior @ processedFiles fresh)
   \<and> (ledger prior \<longrightarrow> ledger fresh \<longrightarrow>
        summary (mergeManifests prior fresh)
        = summary_in (int (length (processedFiles prior @ processedFiles fresh)))
            (processedFiles prior @ processedFiles fresh))
   \<and> (ledger prior \<longrightarrow>
        set (found_in (processedFiles fresh)) = set (found_in (processedFiles prior)) \<longrightarrow>
        missing (mergeManifests prior fresh) = missing prior)"
proof (intro conjI impI)
  show "processedFiles (mergeManifests prior fresh) = processedFiles prior @ processedFiles fresh"
    by (rule processedFiles_merge)
  show "summary (mergeManifests prior fresh)
       = summary_in (totalCandidates prior + totalCandidates fresh)
           (processedFiles prior @ processedFiles fresh)"
    by (rule summary_merge)
  show "missing (mergeManifests prior fresh)
       = missing_in (processedFiles prior @ processedFiles fresh)"
    by (rule missing_merge)
next
  assume "ledger prior" "ledger fresh"
  then show "summary (mergeManifests prior fresh)
        = summary_in (int (length (processedFiles prior @ processedFiles fresh)))
            (processedFiles prior @ processedFiles fresh)"
    using ledger_invariant [of prior] ledger_invariant [of fresh]
    by (simp add: summary_merge)
next
  assume l: "ledger prior"
    and same: "set (found_in (processedFiles fresh)) = set (found_in (processedFiles prior))"
  have "missing prior = missing_in (processedFiles prior)"
    using ledger_invariant [OF l] by simp
  moreover have "missing_in (processedFiles prior @ processedFiles fresh)
                 = missing_in (processedFiles prior)"
    by (simp add: missing_in_def set_found_in_append same)
  ultimately show "missing (mergeManifests prior fresh) = missing prior"
    by (simp add: missing_merge)
qed

theorem C2_merge_witness:
  "ledger (ex_ledger (Some (js ''AP'')))
   \<and> set (found_in (processedFiles (ex_ledger (Some (js ''AP'')))))
       = set (found_in (processedFiles (ex_ledger (Some (js ''AP'')))))
   \<and> length (processedFiles (mergeManifests (ex_ledger (Some (js ''AP''))) (ex_ledger (Some (js ''AP''))))) = 2
   \<and> summary (mergeManifests (ex_ledger (Some (js ''AP''))) (ex_ledger (Some (js ''AP''))))
       = summary_in 2 (processedFiles (ex_ledger (Some (js ''AP''))) @ processedFiles (ex_ledger (Some (js ''AP''))))
   \<and> missing (mergeManifests (ex_ledger (Some (js ''AP''))) (ex_ledger (Some (js ''AP''))))
       = missing (ex_ledger (Some (js ''AP'')))
   \<and> missing (ex_ledger (Some (js ''AP''))) = [js ''RS'', js ''REG'', js ''BLD'', js ''ZON'']"
proof -
  have l: "ledger (ex_ledger (Some (js ''AP'')))"
    by (rule ledger.created [OF ex_ledger_created])
  have m: "missing (ex_ledger (Some (js ''AP''))) = [js ''RS'', js ''REG'', js ''BLD'', js ''ZON'']"
    by (simp add: ex_ledger_def truthy_def requiredCodes_lib_def js_simps)
  have n: "length (processedFiles (ex_ledger (Some (js ''AP'')))) = 1"
    by (simp add: ex_ledger_def)
  note T = C2_merge_concatenates_and_recomputes
      [of "ex_ledger (Some (js ''AP''))" "ex_ledger (Some (js ''AP''))"]
  from T have a: "processedFiles (mergeManifests (ex_ledger (Some (js ''AP''))) (ex_ledger (Some (js ''AP''))))
       = processedFiles (ex_ledger (Some (js ''AP''))) @ processedFiles (ex_ledger (Some (js ''AP'')))"
    by blast
  from T l have b: "summary (mergeManifests (ex_ledger (Some (js ''AP''))) (ex_ledger (Some (js ''AP''))))
       = summary_in (int (length (processedFiles (ex_ledger (Some (js ''AP'')))
                                  @ processedFiles (ex_ledger (Some (js ''AP''))))))
           (processedFiles (ex_ledger (Some (js ''AP''))) @ processedFiles (ex_ledger (Some (js ''AP''))))"
    by blast
  from T l have c: "missing (mergeManifests (ex_ledger (Some (js ''AP''))) (ex_ledger (Some (js ''AP''))))
       = missing (ex_ledger (Some (js ''AP'')))"
    by blast
  show ?thesis
    unfolding a b c using l m n by simp
qed

text \<open>
  C10.  In a ledger made by \<open>createManifest\<close> and merges, only the entries that succeeded
  and carry a category code enter the success count, the found codes and the total size;
  the failure count is the candidate total minus the success count, so it counts the
  failed entries and also the successful entries without a code.
\<close>

theorem C10_uncoded_success_counts_as_failure:
  "ledger m \<Longrightarrow>
   successCount (summary m) = int (length (filter counted (processedFiles m)))
   \<and> set (foundCodes (summary m)) = code_of ` {e \<in> set (processedFiles m). counted e}
   \<and> totalSize (summary m) = sum_list (map me_size (filter counted (processedFiles m)))
   \<and> failCount (summary m) = totalCandidates m - successCount (summary m)
   \<and> failCount (summary m)
       = int (length (filter (\<lambda>e. \<not> me_success e) (processedFiles m)))
         + int (length (filter (\<lambda>e. me_success e \<and> \<not> truthy (me_code e)) (processedFiles m)))"
proof -
  assume "ledger m"
  from ledger_invariant [OF this]
  have t: "totalCandidates m = int (length (processedFiles m))"
    and s: "summary m = summary_in (int (length (processedFiles m))) (processedFiles m)"
    by simp_all
  show ?thesis
    unfolding s t summary_in_def
    using length_three_way [of "processedFiles m"]
    by (simp add: set_found_in)
qed

theorem C10_uncoded_success_witness:
  "ledger (ex_ledger None)
   \<and> filter (\<lambda>e. \<not> me_success e) (processedFiles (ex_ledger None)) = []
   \<and> successCount (summary (ex_ledger None)) = 0
   \<and> foundCodes (summary (ex_ledger None)) = []
   \<and> totalSize (summary (ex_ledger None)) = 0
   \<and> failCount (summary (ex_ledger None)) = 1"
proof -
  have l: "ledger (ex_ledger None)"
    by (rule ledger.created [OF ex_ledger_created])
  have e: "processedFiles (ex_ledger None)
           = [make_entry (ex_clock 0) (ex_candidate None) ex_resolved ex_download]"
    by (simp add: ex_ledger_def)
  have c: "\<not> counted (make_entry (ex_clock 0) (ex_candidate None) ex_resolved ex_download)"
    by (simp add: counted_def make_entry_fields ex_candidate_def truthy_def)
  have s: "me_success (make_entry (ex_clock 0) (ex_candidate None) ex_resolved ex_download)"
    by (simp add: make_entry_fields ex_download_def)
  have f: "foundCodes (summary (ex_ledger None)) = []"
    by (simp add: ex_ledger_def truthy_def)
  show ?thesis
    using C10_uncoded_success_counts_as_failure [OF l] l f
    by (simp add: e counted_def make_entry_fields ex_candidate_def ex_download_def truthy_def)
qed

lemma show_nat_not_Nil: "show_nat n \<noteq> []"
  by (subst show_nat.simps) simp

lemma show_nat_inj: "show_nat m = show_nat n \<Longrightarrow> m = n"
proof (induction m arbitrary: n rule: show_nat.induct)
  case (1 m)
  show ?case
  proof (cases "m < 10")
    case True
    then have m: "show_nat m = [48 + m]" by (subst show_nat.simps) simp
    show ?thesis
    proof (cases "n < 10")
      case True
      then have "show_nat n = [48 + n]" by (subst show_nat.simps) simp
      with m "1.prems" show ?thesis by simp
    next
      case False
      then have "show_nat n = show_nat (n div 10) @ [48 + n mod 10]"
        by (subst show_nat.simps) simp
      with m "1.prems" have "show_nat (n div 10) = []" by simp
      with show_nat_not_Nil show ?thesis by blast
    qed
  next
    case False
    then have m: "show_nat m = show_nat (m div 10) @ [48 + m mod 10]"
      by (subst show_nat.simps) simp
    show ?thesis
    proof (cases "n < 10")
      case True
      then have "show_nat n = [48 + n]" by (subst show_nat.simps) simp
      with m "1.prems" have "show_nat (m div 10) = []" by simp
      with show_nat_not_Nil show ?thesis by blast
    next
      case n: False
      then have "show_nat n = show_nat (n div 10) @ [48 + n mod 10]"
        by (subst show_nat.simps) simp
      with m "1.prems" have d: "show_nat (m div 10) = show_nat (n div 10)"
        and r: "m mod 10 = n mod 10" by simp_all
      from "1.IH" [OF False d] have "m div 10 = n div 10" .
      with r show ?thesis by (metis div_mult_mod_eq)
    qed
  qed
qed

lemma numbered_inj: "numbered b e j = numbered b e k \<Longrightarrow> j = k"
  by (simp add: numbered_def show_nat_inj)

lemma finite_numbered_taken:
  assumes "finite {f. taken f}"
  shows "finite {k. c \<le> k \<and> taken (numbered b e k)}"
proof -
  have "inj (numbered b e)" by (rule injI) (rule numbered_inj)
  with assms have "finite (numbered b e -` {f. taken f})" by (rule finite_vimageI)
  moreover have "{k. c \<le> k \<and> taken (numbered b e k)} \<subseteq> numbered b e -` {f. taken f}"
    by auto
  ultimately show ?thesis by (rule rev_finite_subset)
qed

lemma unique_loop_free: "\<not> taken f \<Longrightarrow> unique_loop taken b e f c = Some f"
  by (subst unique_loop.simps) simp

lemma unique_loop_taken:
  "taken f \<Longrightarrow> unique_loop taken b e f c = unique_loop taken b e (numbered b e c) (c + 1)"
  by (subst unique_loop.simps) simp

lemma unique_loop_numbered:
  assumes fin: "finite {f. taken f}"
  shows "\<exists>y. unique_loop taken b e (numbered b e c) (c + 1) = Some y \<and> \<not> taken y"
proof (induction "card {k. c \<le> k \<and> taken (numbered b e k)}" arbitrary: c rule: less_induct)
  case less
  show ?case
  proof (cases "taken (numbered b e c)")
    case False
    then show ?thesis by (simp add: unique_loop_free)
  next
    case True
    have "c \<in> {k. c \<le> k \<and> taken (numbered b e k)}"
      and "c \<notin> {k. c + 1 \<le> k \<and> taken (numbered b e k)}"
      and "{k. c + 1 \<le> k \<and> taken (numbered b e k)} \<subseteq> {k. c \<le> k \<and> taken (numbered b e k)}"
      using True by auto
    then have "{k. c + 1 \<le> k \<and> taken (numbered b e k)} \<subset> {k. c \<le> k \<and> taken (numbered b e k)}"
      by blast
    then have "card {k. c + 1 \<le> k \<and> taken (numbered b e k)}
               < card {k. c \<le> k \<and> taken (numbered b e k)}"
      by (rule psubset_card_mono [OF finite_numbered_taken [OF fin]])
    from less [OF this] show ?thesis
      using unique_loop_taken [of taken "numbered b e c" b e "c + 1"] True by simp
  qed
qed

lemma unique_loop_returns:
  assumes "finite {f. taken f}"
  shows "\<exists>y. unique_loop taken b e f c = Some y \<and> \<not> taken y"
proof (cases "taken f")
  case False
  then show ?thesis by (simp add: unique_loop_free)
next
  case True
  with unique_loop_numbered [OF assms, of b e c] show ?thesis
    by (simp add: unique_loop_taken)
qed

lemma generateUniqueFilename_returns:
  "\<exists>filename. generateUniqueFilename reg disk candidate ext = Some (filename, reg @ [filename])
     \<and> filename \<notin> set reg \<and> filename \<notin> set disk"
proof -
  have "finite {f. f \<in> set reg \<or> f \<in> set disk}" by simp
  from unique_loop_returns [OF this]
  obtain y where "unique_loop (\<lambda>f. f \<in> set reg \<or> f \<in> set disk)
      (baseFilename_of candidate ext) ext (baseFilename_of candidate ext) 1 = Some y"
     and "y \<notin> set reg" "y \<notin> set disk"
    by blast
  then show ?thesis
    by (simp add: generateUniqueFilename_def Let_def Set_add_def)
qed

lemma generate_all_returns:
  "\<exists>names. generate_all reg calls = Some (names, reg @ names)
     \<and> distinct names \<and> set names \<inter> set reg = {}
     \<and> list_all2 (\<lambda>name call. name \<notin> set (fst call)) names calls"
proof (induction calls arbitrary: reg)
  case Nil
  then show ?case by simp
next
  case (Cons call calls)
  obtain disk candidate ext where call: "call = (disk, candidate, ext)"
    by (cases call) auto
  from generateUniqueFilename_returns [of reg disk candidate ext]
  obtain filename where g: "generateUniqueFilename reg disk candidate ext = Some (filename, reg @ [filename])"
    and f: "filename \<notin> set reg" "filename \<notin> set disk"
    by blast
  from Cons.IH [of "reg @ [filename]"]
  obtain names where n: "generate_all (reg @ [filename]) calls = Some (names, (reg @ [filename]) @ names)"
    and d: "distinct names" "set names \<inter> set (reg @ [filename]) = {}"
    and l: "list_all2 (\<lambda>name call. name \<notin> set (fst call)) names calls"
    by blast
  show ?case
    by (rule exI [of _ "filename # names"]) (use call g f n d l in auto)
qed

lemma set_loadExistingManifest:
  "set (snd (loadExistingManifest reg stored)) =
   set reg \<union> (case stored of None \<Rightarrow> {}
               | Some m \<Rightarrow> {me_filename e | e. e \<in> set (processedFiles m) \<and> me_success e})"
proof -
  have h: "set (foldl (\<lambda>reg entry. if me_success entry then Set_add reg (me_filename entry) else reg) r es)
        = set r \<union> {me_filename e | e. e \<in> set es \<and> me_success e}" for r es
    by (induction es arbitrary: r) (auto simp: set_Set_add)
  show ?thesis
    by (cases stored) (simp_all add: loadExistingManifest_def h)
qed

text \<open>
  C3.  Starting from any registry, after \<open>loadExistingManifest\<close> has read the stored ledger
  (or found none), every sequence of \<open>generateUniqueFilename\<close> calls of one case returns:
  the names handed out are pairwise distinct, none was in the registry before, none exists
  in the output directory at the moment of its call, and none equals the file name of a
  successful entry of the stored ledger, all of which \<open>load\<close> has put into the registry.
\<close>

theorem C3_unique_filenames:
  "\<exists>names reg'.
     generate_all (snd (loadExistingManifest reg stored)) calls = Some (names, reg')
     \<and> distinct names
     \<and> set names \<inter> set reg = {}
     \<and> list_all2 (\<lambda>name call. name \<notin> set (fst call)) names calls
     \<and> (\<forall>m. stored = Some m \<longrightarrow>
           (\<forall>e \<in> set (processedFiles m). me_success e \<longrightarrow>
              me_filename e \<in> set (snd (loadExistingManifest reg stored))
              \<and> me_filename e \<notin> set names))"
proof -
  from generate_all_returns [of "snd (loadExistingManifest reg stored)" calls]
  obtain names where
    g: "generate_all (snd (loadExistingManifest reg stored)) calls
        = Some (names, snd (loadExistingManifest reg stored) @ names)"
    and d: "distinct names"
    and i: "set names \<inter> set (snd (loadExistingManifest reg stored)) = {}"
    and l: "list_all2 (\<lambda>name call. name \<notin> set (fst call)) names calls"
    by blast
  show ?thesis
    using g d i l by (auto simp: set_loadExistingManifest)
qed

lemma show_nat_digit: "n < 10 \<Longrightarrow> show_nat n = [48 + n]"
  by (subst show_nat.simps) simp

lemma ex_load:
  "snd (loadExistingManifest [] (Some (ex_ledger (Some (js ''AP''))))) = [js ''AP_doc.pdf'']"
  by (simp add: loadExistingManifest_def ex_ledger_def make_entry_fields ex_download_def
      Set_add_def)

lemma ex_generate_all:
  "generate_all [js ''AP_doc.pdf'']
     [([], ex_candidate (Some (js ''AP'')), js ''.pdf''),
      ([js ''AP_doc_2.pdf''], ex_candidate (Some (js ''AP'')), js ''.pdf'')]
   = Some ([js ''AP_doc_1.pdf'', js ''AP_doc_3.pdf''],
           [js ''AP_doc.pdf'', js ''AP_doc_1.pdf'', js ''AP_doc_3.pdf''])"
  by (simp add: generateUniqueFilename_def baseFilename_of_def ex_candidate_def kept_char_def
      is_word_char_def is_space_char_def is_hangul_def unique_loop_taken unique_loop_free
      numbered_def show_nat_digit js_simps Set_add_def)

theorem C3_unique_filenames_witness:
  "generate_all (snd (loadExistingManifest [] (Some (ex_ledger (Some (js ''AP''))))))
     [([], ex_candidate (Some (js ''AP'')), js ''.pdf''),
      ([js ''AP_doc_2.pdf''], ex_candidate (Some (js ''AP'')), js ''.pdf'')]
   = Some ([js ''AP_doc_1.pdf'', js ''AP_doc_3.pdf''],
           [js ''AP_doc.pdf'', js ''AP_doc_1.pdf'', js ''AP_doc_3.pdf''])
   \<and> distinct [js ''AP_doc_1.pdf'', js ''AP_doc_3.pdf'']
   \<and> js ''AP_doc_3.pdf'' \<notin> set [js ''AP_doc_2.pdf'']
   \<and> map me_filename (filter me_success (processedFiles (ex_ledger (Some (js ''AP'')))))
       = [js ''AP_doc.pdf'']
   \<and> js ''AP_doc.pdf'' \<notin> set [js ''AP_doc_1.pdf'', js ''AP_doc_3.pdf'']"
proof -
  from C3_unique_filenames [of "[]" "Some (ex_ledger (Some (js ''AP'')))"
      "[([], ex_candidate (Some (js ''AP'')), js ''.pdf''),
        ([js ''AP_doc_2.pdf''], ex_candidate (Some (js ''AP'')), js ''.pdf'')]"]
  obtain names reg' where
    g: "generate_all (snd (loadExistingManifest [] (Some (ex_ledger (Some (js ''AP''))))))
         [([], ex_candidate (Some (js ''AP'')), js ''.pdf''),
          ([js ''AP_doc_2.pdf''], ex_candidate (Some (js ''AP'')), js ''.pdf'')]
        = Some (names, reg')"
    and d: "distinct names"
    and l: "list_all2 (\<lambda>name call. name \<notin> set (fst call)) names
              [([], ex_candidate (Some (js ''AP'')), js ''.pdf''),
               ([js ''AP_doc_2.pdf''], ex_candidate (Some (js ''AP'')), js ''.pdf'')]"
    and p: "\<forall>e \<in> set (processedFiles (ex_ledger (Some (js ''AP'')))). me_success e \<longrightarrow>
              me_filename e \<notin> set names"
    by blast
  from g [unfolded ex_load ex_generate_all]
  have n: "names = [js ''AP_doc_1.pdf'', js ''AP_doc_3.pdf'']"
    and r: "reg' = [js ''AP_doc.pdf'', js ''AP_doc_1.pdf'', js ''AP_doc_3.pdf'']"
    by auto
  from l have "js ''AP_doc_3.pdf'' \<notin> set [js ''AP_doc_2.pdf'']"
    unfolding n by (simp add: list_all2_Cons1)
  moreover have e: "map me_filename (filter me_success (processedFiles (ex_ledger (Some (js ''AP'')))))
       = [js ''AP_doc.pdf'']"
    by (simp add: ex_ledger_def make_entry_fields ex_download_def)
  moreover from p have "\<forall>f \<in> set (map me_filename (filter me_success
        (processedFiles (ex_ledger (Some (js ''AP'')))))). f \<notin> set names"
    by simp
  then have "js ''AP_doc.pdf'' \<notin> set [js ''AP_doc_1.pdf'', js ''AP_doc_3.pdf'']"
    unfolding e n by simp
  ultimately show ?thesis using g d unfolding n r by simp
qed























lemma ex_platform_simps:
  "extname ex_platform (js ''report.pdf'') = js ''.pdf''"
  "basename ex_platform (js ''out/AP'') = js ''AP''"
  "dirname ex_platform (js ''out/AP'') = js ''out''"
  "join_path ex_platform dir name = dir @ [47] @ name"
  "decodeURIComponent ex_platform s = Some s"
  by (simp_all add: ex_platform_def js_simps)

lemma looks_like_html_html_page: "looks_like_html html_page"
  by (simp add: looks_like_html_def html_page_def js_simps starts_with_ci_def to_lower_def)

lemma FILE_CT_pdf: "FILE_CT (js ''application/pdf'')"
  by (simp add: FILE_CT_def starts_with_ci_def)

lemma extFromCT_pdf: "extFromCT (js ''application/pdf'') fallback = js ''pdf''"
  by (simp add: extFromCT_def js_simps starts_with_ci_def to_lower_def)

lemma defaultExtFromCode_AP: "defaultExtFromCode (js ''AP'') = js ''pdf''"
  by (simp add: defaultExtFromCode_def js_simps starts_with_ci_def to_lower_def)

lemma sniff_pdf_response: "sniffFileResponse [pdf_response body] = Some (pdf_response body)"
  by (simp add: sniffFileResponse_def pdf_response_def FILE_CT_pdf)

lemma save_popup_pdf_response:
  "save_popup_response ex_platform True (pdf_response body) (js ''out/AP'') (js ''pdf'')
   = Saved (js ''out/AP.pdf'') body"
  by (simp add: save_popup_response_def pdf_response_def extFromCT_pdf nameFromCD_def
      ex_platform_simps)
     (simp add: js_simps)

lemma save_page_response_html:
  "rs_body fileResp = Some buffer \<Longrightarrow> looks_like_html buffer \<Longrightarrow>
   save_page_response P writes fileResp saveBase defaultExt = HtmlDetected"
  by (simp add: save_page_response_def)

lemma looks_like_html_html_padded: "looks_like_html html_padded"
  by (simp add: looks_like_html_def html_padded_def html_page_def js_simps starts_with_ci_def
      to_lower_def)

lemma findUniqueFilename_empty_dir:
  "findUniqueFilename P empty_dir stamp basePath filename = filename"
  unfolding findUniqueFilename_def Let_def
  by (subst findUnique_loop.simps) (simp add: empty_dir_def)

lemma length_html_padded: "length html_padded = 655"
  by (simp add: html_padded_def html_page_def js_def)

lemma performDownload_html_padded:
  "performDownload ex_platform empty_dir (js ''0'') None (Inr (pdf_fetch html_padded))
     (js ''out'') (js ''AP.pdf'')
   = (Inr \<lparr> tr_success = True, tr_path = Some (js ''out/AP.pdf''), tr_size = 655,
            tr_hash = Some (md5_hex ex_platform html_padded), tr_error = None,
            tr_contentType = Some (js ''application/pdf'') \<rparr>,
      [(js ''out/AP.pdf'', html_padded)])"
  by (simp add: performDownload_def pdf_fetch_def findUniqueFilename_empty_dir
      length_html_padded ex_platform_simps Let_def)
     (simp add: js_simps)

text \<open>
  C5.  The claim: a payload that starts with an HTML document marker is rejected on every
  save path of the engine and the transport, whatever content type it declares.  The
  block that saves a response sniffed on the context does reject it
  (\<open>save_page_response_html\<close>).  The block that saves a response sniffed in the popup does
  not look at the bytes: a popup that answers an HTML page as \<open>application/pdf\<close> has it
  written to disk and returned as the file.  The transport looks for four error words, and
  only in bodies under 512 bytes: a longer HTML page served as \<open>application/pdf\<close> is
  written and reported as a success.
\<close>

theorem C5_html_payload_is_saved:
  "looks_like_html html_page
   \<and> clickResolveAndSaveV2 ex_platform
        (quiet_world \<lparr> w_popup := Some ((quiet_popup (js ''https://host/viewer''))
                                          \<lparr> pp_responses := [pdf_response html_page] \<rparr>) \<rparr>)
        (js ''out/AP'') (js ''AP'') None
      = \<lparr> o_result = Some (js ''out/AP.pdf''), o_via = ViaPopupResponse,
          o_written = [(js ''out/AP.pdf'', html_page)], o_popup_open = False \<rparr>
   \<and> looks_like_html html_padded
   \<and> performDownload ex_platform empty_dir (js ''0'') None (Inr (pdf_fetch html_padded))
        (js ''out'') (js ''AP.pdf'')
      = (Inr \<lparr> tr_success = True, tr_path = Some (js ''out/AP.pdf''), tr_size = 655,
               tr_hash = Some (md5_hex ex_platform html_padded), tr_error = None,
               tr_contentType = Some (js ''application/pdf'') \<rparr>,
         [(js ''out/AP.pdf'', html_padded)])"
proof -
  have u: "\<not> str_includes (js ''/pa/paFile.php'') (js ''https://host/viewer'')"
    by (simp add: js_simps starts_with_def)
  have "clickResolveAndSaveV2 ex_platform
        (quiet_world \<lparr> w_popup := Some ((quiet_popup (js ''https://host/viewer''))
                                          \<lparr> pp_responses := [pdf_response html_page] \<rparr>) \<rparr>)
        (js ''out/AP'') (js ''AP'') None
      = \<lparr> o_result = Some (js ''out/AP.pdf''), o_via = ViaPopupResponse,
          o_written = [(js ''out/AP.pdf'', html_page)], o_popup_open = False \<rparr>"
    by (simp add: clickResolveAndSaveV2_def early_extraction_def quiet_world_def
        quiet_popup_def u download_block_def popup_block_def sniff_pdf_response
        defaultExtFromCode_AP save_popup_pdf_response returned_def)
  then show ?thesis
    by (simp only: looks_like_html_html_page looks_like_html_html_padded
        performDownload_html_padded simp_thms)
qed

section \<open>Which signal wins, and what happens to the popup\<close>

lemma download_wins_otherwise:
  assumes "w_mkdir w" and "w_pageStays w" and "early_extraction w = None"
    and "w_download w = Some dl" and "dl_saves dl"
  shows "o_via (clickResolveAndSaveV2 P w saveBase code originalHref) = ViaDownload"
    and "o_popup_open (clickResolveAndSaveV2 P w saveBase code originalHref) = (w_popup w \<noteq> None)"
  using assms
  by (simp_all add: clickResolveAndSaveV2_def early_extraction_def download_block_def
      returned_def Let_def)

lemma popup_before_page_responses:
  assumes "w_mkdir w" and "w_pageStays w" and "early_extraction w = None"
    and "download_block P w saveBase (defaultExtFromCode code) = None"
    and "w_popup w = Some pop"
    and "popup_block P (w_writes w) pop saveBase (defaultExtFromCode code) = Some res"
  shows "clickResolveAndSaveV2 P w saveBase code originalHref = res"
  using assms
  by (simp add: clickResolveAndSaveV2_def early_extraction_def Let_def)

lemma popup_block_closes:
  "popup_block P writes pop saveBase defaultExt = Some res \<Longrightarrow> \<not> o_popup_open res"
  by (auto simp: popup_block_def returned_def Let_def split: if_splits option.splits save.splits)

lemma after_popup_closed: "\<not> o_popup_open (after_popup P w saveBase defaultExt originalHref)"
  by (simp add: after_popup_def returned_def Let_def split: option.splits save.splits)

lemma popup_closed_without_download:
  assumes "w_pageStays w" and "download_block P w saveBase (defaultExtFromCode code) = None"
  shows "\<not> o_popup_open (clickResolveAndSaveV2 P w saveBase code originalHref)"
  using assms
  by (auto simp: clickResolveAndSaveV2_def returned_def Let_def after_popup_closed
      dest: popup_block_closes split: option.splits)

lemma resolveLinkBased_download_first:
  assumes "\<not> (starts_with (js ''http'') (dc_href c) \<and> \<not> str_includes (js ''javascript:'') (dc_href c))"
    and "lw_clickError w = None" and "lw_download w = Some (url, suggested)"
  shows "ru_finalUrl (fst (resolveLinkBased w c)) = url"
    and "snd (resolveLinkBased w c) = []"
  using assms
  by (auto simp: resolveLinkBased_def with_captured_def unresolved_def Let_def
      split: option.splits)

text \<open>
  C7.  The claim: when several signals fire, the download signal wins over the popup, the
  popup over a sniffed response.  After the comment that gives the download event the
  first rank, the engine does follow that order (\<open>download_wins_otherwise\<close>,
  \<open>popup_before_page_responses\<close>).  But while it still collects the events, a popup whose
  URL contains \<open>/pa/paFile.php\<close> and from which \<open>extractPdfFromHtml\<close> gets a file makes
  it return at once: the download that fired in the same race is never saved.
\<close>

theorem C7_popup_extraction_beats_download:
  "clickResolveAndSaveV2 ex_platform
     (quiet_world \<lparr> w_download := Some pdf_download,
                    w_popup := Some (quiet_popup (js ''https://host/pa/paFile.php?tp=J'')),
                    w_extractedPdf := Some (js ''out/AP.pdf'') \<rparr>)
     (js ''out/AP'') (js ''AP'') None
   = \<lparr> o_result = Some (js ''out/AP.pdf''), o_via = ViaPopupExtraction, o_written = [],
       o_popup_open = False \<rparr>"
proof -
  have u: "str_includes (js ''/pa/paFile.php'') (js ''https://host/pa/paFile.php?tp=J'')"
    by (simp add: js_simps starts_with_def)
  have n: "non_empty (Some (js ''out/AP.pdf'')) = Some (js ''out/AP.pdf'')"
    by (simp add: non_empty_def js_simps)
  show ?thesis
    by (simp add: clickResolveAndSaveV2_def early_extraction_def quiet_world_def quiet_popup_def
        u n returned_def)
qed

text \<open>
  C8.  The claim: a popup opened during the attempt is closed before the engine returns,
  also when the download signal wins.  The popup is closed on every return that follows a
  failed or absent download (\<open>popup_closed_without_download\<close>).  When the download is
  saved, the engine returns from the download branch, which never touches the popup, and
  the resolver of the batch runner does the same.
\<close>

theorem C8_download_leaves_popup_open:
  "clickResolveAndSaveV2 ex_platform
     (quiet_world \<lparr> w_download := Some pdf_download,
                    w_popup := Some (quiet_popup (js ''https://host/viewer'')) \<rparr>)
     (js ''out/AP'') (js ''AP'') None
   = \<lparr> o_result = Some (js ''out/AP.pdf''), o_via = ViaDownload,
       o_written = [(js ''out/AP.pdf'', js ''%PDF-1.4'')], o_popup_open = True \<rparr>
   \<and> snd (resolveLinkBased
        \<lparr> lw_clickError = None, lw_newPage = Some (js ''https://host/viewer''),
          lw_download = Some (js ''https://host/file.pdf'', js ''report.pdf''),
          lw_popup = Some (js ''https://host/viewer''), lw_currentUrl = js ''https://host/case'',
          lw_captured = Map.empty \<rparr>
        (ex_candidate (Some (js ''AP'')))) = []"
proof -
  have u: "\<not> str_includes (js ''/pa/paFile.php'') (js ''https://host/viewer'')"
    by (simp add: js_simps starts_with_def)
  have h: "\<not> starts_with (js ''http'') (js ''#'')"
    by (simp add: js_simps starts_with_def)
  have 1: "clickResolveAndSaveV2 ex_platform
     (quiet_world \<lparr> w_download := Some pdf_download,
                    w_popup := Some (quiet_popup (js ''https://host/viewer'')) \<rparr>)
     (js ''out/AP'') (js ''AP'') None
   = \<lparr> o_result = Some (js ''out/AP.pdf''), o_via = ViaDownload,
       o_written = [(js ''out/AP.pdf'', js ''%PDF-1.4'')], o_popup_open = True \<rparr>"
    by (simp add: clickResolveAndSaveV2_def early_extraction_def quiet_world_def quiet_popup_def
        u download_block_def pdf_download_def ex_platform_simps returned_def defaultExtFromCode_AP Let_def)
       (simp add: js_simps)
  have 2: "snd (resolveLinkBased
        \<lparr> lw_clickError = None, lw_newPage = Some (js ''https://host/viewer''),
          lw_download = Some (js ''https://host/file.pdf'', js ''report.pdf''),
          lw_popup = Some (js ''https://host/viewer''), lw_currentUrl = js ''https://host/case'',
          lw_captured = Map.empty \<rparr>
        (ex_candidate (Some (js ''AP'')))) = []"
    by (simp add: resolveLinkBased_def ex_candidate_def h)
  from 1 2 show ?thesis by (simp only: simp_thms)
qed

section \<open>Forcing the download mode in a URL\<close>

lemma others_sp_set_first:
  "filter (\<lambda>p. fst p \<noteq> name) (sp_set_first name val params) = filter (\<lambda>p. fst p \<noteq> name) params"
  by (induction params) auto

lemma tp_sp_set_first:
  "sp_has name params \<Longrightarrow>
   filter (\<lambda>p. fst p = name) (sp_set_first name val params) = [(name, val)]"
  by (induction params) (auto simp: sp_has_def)

lemma others_sp_set:
  "filter (\<lambda>p. fst p \<noteq> name) (sp_set name val params) = filter (\<lambda>p. fst p \<noteq> name) params"
  by (simp add: sp_set_def sp_append_def others_sp_set_first)

lemma tp_sp_set:
  "filter (\<lambda>p. fst p = name) (sp_set name val params) = [(name, val)]"
proof (cases "sp_has name params")
  case True
  then show ?thesis by (simp add: sp_set_def tp_sp_set_first)
next
  case False
  then have "filter (\<lambda>p. fst p = name) params = []"
    by (auto simp: sp_has_def filter_empty_conv)
  with False show ?thesis by (simp add: sp_set_def sp_append_def)
qed

lemma sp_get_filter:
  "sp_get name params
   = (case filter (\<lambda>p. fst p = name) params of [] \<Rightarrow> None | p # ps \<Rightarrow> Some (snd p))"
  by (induction params) (auto simp: sp_get_def)

lemma forced_facts:
  "filter (\<lambda>p. fst p = js ''tp'') (forced params) = [(js ''tp'', js ''D'')]"
  "others (forced params) = others params"
  "sp_get (js ''tp'') (forced params) = Some (js ''D'')"
  "forced params \<noteq> []"
proof -
  show 1: "filter (\<lambda>p. fst p = js ''tp'') (forced params) = [(js ''tp'', js ''D'')]"
    by (simp add: forced_def tp_sp_set)
  show "others (forced params) = others params"
    by (simp add: forced_def others_def others_sp_set)
  show "sp_get (js ''tp'') (forced params) = Some (js ''D'')"
    by (simp add: sp_get_filter 1)
  from 1 show "forced params \<noteq> []" by auto
qed

lemma sp_set_first_place:
  "sp_has name params \<Longrightarrow>
   sp_set_first name val params
   = takeWhile (\<lambda>p. fst p \<noteq> name) params @ [(name, val)]
       @ filter (\<lambda>p. fst p \<noteq> name) (dropWhile (\<lambda>p. fst p \<noteq> name) params)"
  by (induction params) (auto simp: sp_has_def)

lemma forced_place:
  "forced params
   = takeWhile (\<lambda>p. fst p \<noteq> js ''tp'') params @ [(js ''tp'', js ''D'')]
       @ others (dropWhile (\<lambda>p. fst p \<noteq> js ''tp'') params)"
proof (cases "sp_has (js ''tp'') params")
  case True
  then show ?thesis
    by (simp add: forced_def sp_set_def sp_set_first_place others_def)
next
  case False
  then have "\<forall>p \<in> set params. fst p \<noteq> js ''tp''"
    by (auto simp: sp_has_def)
  then have t: "takeWhile (\<lambda>p. fst p \<noteq> js ''tp'') params = params"
    and d: "dropWhile (\<lambda>p. fst p \<noteq> js ''tp'') params = []"
    by simp_all
  from False show ?thesis
    unfolding t d by (simp add: forced_def sp_set_def sp_append_def others_def)
qed

lemma set_forced: "set (forced params) \<subseteq> insert (js ''tp'', js ''D'') (set params)"
proof -
  have "set (sp_set_first name val ps) \<subseteq> insert (name, val) (set ps)" for name val ps
    by (induction ps) auto
  then show ?thesis
    by (auto simp: forced_def sp_set_def sp_append_def)
qed

lemma force_tp_eq: "force_tp c u = update_query c (forced (searchParams c u)) u"
  by (simp add: force_tp_def forced_def sp_set_def)

section \<open>Writing a query and reading it again\<close>

lemma split_on_not_Nil: "split_on sep bs \<noteq> []"
  by (induction bs) (auto split: list.splits)

lemma split_on_none: "sep \<notin> set bs \<Longrightarrow> split_on sep bs = [bs]"
  by (induction bs) auto

lemma split_on_last:
  "sep \<notin> set ys \<Longrightarrow> split_on sep (xs @ sep # ys) = split_on sep xs @ [ys]"
proof (induction xs)
  case Nil
  then show ?case by (simp add: split_on_none)
next
  case (Cons x xs)
  obtain piece pieces where p: "split_on sep xs = piece # pieces"
    using split_on_not_Nil [of sep xs] by (cases "split_on sep xs") auto
  from Cons p show ?case by simp
qed

lemma percent_decode_plain: "b \<noteq> 37 \<Longrightarrow> percent_decode (b # bs) = b # percent_decode bs"
proof (cases bs)
  case Nil
  then show ?thesis by simp
next
  case (Cons h t)
  assume "b \<noteq> 37"
  with Cons show ?thesis by (cases t) simp_all
qed

lemma percent_decode_escape:
  "is_hex_digit h \<Longrightarrow> is_hex_digit l \<Longrightarrow>
   percent_decode (37 # h # l # rest) = (16 * hex_value h + hex_value l) # percent_decode rest"
  by simp

lemma hex_digit_facts:
  assumes "n < 16"
  shows "is_hex_digit (hex_digit n)" and "hex_value (hex_digit n) = n"
    and "hex_digit n \<noteq> 43" and "hex_digit n \<noteq> 38" and "hex_digit n \<noteq> 61"
  using assms by (auto simp: hex_digit_def is_hex_digit_def hex_value_def)

lemma read_urlencoded_byte:
  assumes "b < 256"
  shows "percent_decode (map plus_to_space (urlencoded_byte b @ rest))
         = b # percent_decode (map plus_to_space rest)"
proof -
  consider "b = 32" | "b \<noteq> 32" "urlencoded_keeps b" | "b \<noteq> 32" "\<not> urlencoded_keeps b"
    by blast
  then show ?thesis
  proof cases
    case 1
    then show ?thesis
      by (simp add: urlencoded_byte_def plus_to_space_def percent_decode_plain)
  next
    case 2
    then have "b \<noteq> 43" "b \<noteq> 37" by (auto simp: urlencoded_keeps_def)
    with 2 show ?thesis
      by (simp add: urlencoded_byte_def plus_to_space_def percent_decode_plain)
  next
    case 3
    from assms have d: "b div 16 < 16" and m: "b mod 16 < 16" by simp_all
    have p: "plus_to_space (hex_digit n) = hex_digit n" if "n < 16" for n
      using hex_digit_facts(3) [OF that] by (simp add: plus_to_space_def)
    have "16 * (b div 16) + b mod 16 = b" by simp
    with 3 show ?thesis
      unfolding urlencoded_byte_def
      by (simp add: p [OF d] p [OF m] percent_decode_escape hex_digit_facts [OF d]
          hex_digit_facts [OF m] plus_to_space_def del: percent_decode.simps)
  qed
qed

lemma read_urlencoded_bytes:
  "\<forall>b \<in> set bs. b < 256 \<Longrightarrow>
   percent_decode (map plus_to_space (concat (map urlencoded_byte bs))) = bs"
proof (induction bs)
  case Nil
  then show ?case by simp
next
  case (Cons b bs)
  then have "b < 256" by simp
  from read_urlencoded_byte [OF this, of "concat (map urlencoded_byte bs)"] Cons
  show ?case by simp
qed

lemma urlencoded_byte_marks:
  "b < 256 \<Longrightarrow> 38 \<notin> set (urlencoded_byte b) \<and> 61 \<notin> set (urlencoded_byte b)"
proof -
  assume "b < 256"
  then have d: "b div 16 < 16" and m: "b mod 16 < 16" by simp_all
  show ?thesis
    using hex_digit_facts(4,5) [OF d] hex_digit_facts(4,5) [OF m]
    by (auto simp: urlencoded_byte_def urlencoded_keeps_def)
qed

lemma urlencoded_string_marks:
  assumes "round_trips c s"
  shows "38 \<notin> set (urlencoded_string c s)" and "61 \<notin> set (urlencoded_string c s)"
  using assms urlencoded_byte_marks
  by (auto simp: urlencoded_string_def round_trips_def)

lemma read_urlencoded_string:
  "round_trips c s \<Longrightarrow>
   utf8_decode c (percent_decode (map plus_to_space (urlencoded_string c s))) = s"
  by (simp add: urlencoded_string_def round_trips_def read_urlencoded_bytes)

lemma urlencoded_tuple_written:
  assumes "round_trips c name" and "round_trips c val"
  shows "urlencoded_tuple c (urlencoded_string c name @ [61] @ urlencoded_string c val)
         = (name, val)"
proof -
  have n: "\<forall>b \<in> set (urlencoded_string c name). b \<noteq> 61"
    using urlencoded_string_marks(2) [OF assms(1)] by auto
  have t: "takeWhile (\<lambda>b. b \<noteq> 61) (urlencoded_string c name @ [61] @ urlencoded_string c val)
           = urlencoded_string c name"
    using n by (simp add: takeWhile_append2)
  have d: "dropWhile (\<lambda>b. b \<noteq> 61) (urlencoded_string c name @ [61] @ urlencoded_string c val)
           = 61 # urlencoded_string c val"
    using n by (simp add: dropWhile_append2)
  show ?thesis
    unfolding urlencoded_tuple_def Let_def t d
    by (simp add: read_urlencoded_string assms)
qed

lemma urlencoded_serialize_snoc:
  "urlencoded_serialize c (tuples @ [tuple])
   = (if urlencoded_serialize c tuples \<noteq> [] then urlencoded_serialize c tuples @ [38]
      else urlencoded_serialize c tuples)
     @ urlencoded_string c (fst tuple) @ [61] @ urlencoded_string c (snd tuple)"
  by (simp add: urlencoded_serialize_def)

lemma urlencoded_serialize_Nil: "urlencoded_serialize c [] = []"
  by (simp add: urlencoded_serialize_def)

lemma urlencoded_serialize_empty: "urlencoded_serialize c tuples = [] \<longleftrightarrow> tuples = []"
  by (cases tuples rule: rev_cases)
     (simp_all add: urlencoded_serialize_Nil urlencoded_serialize_snoc)

lemma urlencoded_parse_serialize:
  "\<forall>p \<in> set tuples. round_trips c (fst p) \<and> round_trips c (snd p) \<Longrightarrow>
   urlencoded_parse c (urlencoded_serialize c tuples) = tuples"
proof (induction tuples rule: rev_induct)
  case Nil
  then show ?case by (simp add: urlencoded_serialize_Nil urlencoded_parse_def)
next
  case (snoc p tuples)
  then have r: "round_trips c (fst p)" "round_trips c (snd p)" by simp_all
  define seg where "seg = urlencoded_string c (fst p) @ [61] @ urlencoded_string c (snd p)"
  have a: "38 \<notin> set seg"
    using urlencoded_string_marks(1) [OF r(1)] urlencoded_string_marks(1) [OF r(2)]
    by (simp add: seg_def)
  have ne: "seg \<noteq> []" by (simp add: seg_def)
  have t: "urlencoded_tuple c seg = p"
    using urlencoded_tuple_written [OF r] by (simp add: seg_def)
  show ?case
  proof (cases "tuples = []")
    case True
    have "urlencoded_serialize c ([] @ [p]) = seg"
      unfolding urlencoded_serialize_snoc by (simp add: urlencoded_serialize_Nil seg_def)
    with True show ?thesis
      using a ne t by (simp add: urlencoded_parse_def split_on_none)
  next
    case False
    then have s: "urlencoded_serialize c tuples \<noteq> []"
      by (simp add: urlencoded_serialize_empty)
    have IH: "urlencoded_parse c (urlencoded_serialize c tuples) = tuples"
      using snoc by simp
    have "urlencoded_serialize c (tuples @ [p]) = urlencoded_serialize c tuples @ 38 # seg"
      using s by (simp add: urlencoded_serialize_snoc seg_def)
    then show ?thesis
      using IH a ne t by (simp add: urlencoded_parse_def split_on_last)
  qed
qed

lemma query_update_query:
  "tuples \<noteq> [] \<Longrightarrow> u_query (update_query c tuples u) = Some (urlencoded_serialize c tuples)"
  by (simp add: update_query_def Let_def urlencoded_serialize_empty)

lemma update_query_written:
  "tuples \<noteq> [] \<Longrightarrow>
   update_query c tuples u = u \<lparr> u_query := Some (urlencoded_serialize c tuples) \<rparr>"
  by (simp add: update_query_def Let_def urlencoded_serialize_empty)

lemma force_tp_written:
  "force_tp c u = u \<lparr> u_query := Some (urlencoded_serialize c (forced (searchParams c u))) \<rparr>"
  by (simp add: force_tp_eq update_query_written forced_facts)

lemma searchParams_written:
  "\<forall>p \<in> set tuples. round_trips c (fst p) \<and> round_trips c (snd p) \<Longrightarrow>
   searchParams c (u \<lparr> u_query := Some (urlencoded_serialize c tuples) \<rparr>) = tuples"
  by (simp add: searchParams_def urlencoded_parse_serialize)

lemma toDirectDownloadFromHref_eq:
  "toDirectDownloadFromHref c parse href baseUrl =
     (case parse (reference_of href) (Some baseUrl) of
        None \<Rightarrow> None
      | Some u \<Rightarrow>
          Some (force_tp c (if unwrapped href = None \<and> ends_with (js ''/pa/paView.php'') (u_pathname u)
                            then set_pathname (js ''/pa/paFile.php'') u else u)))"
  by (simp add: toDirectDownloadFromHref_def reference_of_def Let_def split: option.splits)

lemma toDirectDownloadUrl_eq:
  "toDirectDownloadUrl c parse viewUrl =
     (case parse viewUrl None of
        None \<Rightarrow> None
      | Some u \<Rightarrow>
          if str_includes (js ''/pa/paFile.php'') (u_pathname u)
          then Some (if sp_get (js ''tp'') (searchParams c u) \<noteq> Some (js ''D'')
                     then u \<lparr> u_query := Some (urlencoded_serialize c (forced (searchParams c u))) \<rparr>
                     else u)
          else None)"
  by (simp add: toDirectDownloadUrl_def forced_def [symmetric] update_query_written forced_facts
      split: option.splits)


text \<open>
  C9 (as amended).  \<open>toDirectDownloadFromHref\<close> answers \<open>null\<close> exactly when the URL
  constructor throws on the reference (the href, or the path unwrapped from a
  \<open>javascript:fileView(...)\<close> reference and put under \<open>/pa/\<close>).  Otherwise it answers the
  URL of the reference, with the path \<open>/pa/paFile.php\<close> for a plain href whose path ends
  in \<open>/pa/paView.php\<close> and is not opaque, and with the query written again from its
  parameters with \<open>tp\<close> forced: the parameters before the first \<open>tp\<close>, one \<open>tp\<close> with the
  value \<open>D\<close>, and the later parameters other than \<open>tp\<close>; so exactly one \<open>tp\<close>, and every
  other parameter with the name and the value that \<open>searchParams\<close> read, in the same
  order.  Reading a URL that was written in this way gives these parameters back, for
  strings that the encoder and the decoder give back.  The text of a parameter is not
  kept as it was: it is written in the one form that the serializer has.  The legacy
  \<open>toDirectDownloadUrl\<close> answers \<open>null\<close> when the constructor throws and also when the
  parsed path does not contain \<open>/pa/paFile.php\<close>; it answers the URL as it is, every
  \<open>tp\<close> included, when the first \<open>tp\<close> is \<open>D\<close> already; otherwise it writes the query
  again in the same way and leaves the path.
\<close>

theorem C9_direct_url_reconstruction:
  "(parse (reference_of href) (Some baseUrl) = None \<longrightarrow>
      toDirectDownloadFromHref c parse href baseUrl = None)
   \<and> (\<forall>u. parse (reference_of href) (Some baseUrl) = Some u \<longrightarrow>
          toDirectDownloadFromHref c parse href baseUrl
            = Some (u \<lparr> u_pathname :=
                           (if unwrapped href = None \<and> ends_with (js ''/pa/paView.php'') (u_pathname u)
                               \<and> \<not> u_opaque u
                            then js ''/pa/paFile.php'' else u_pathname u),
                         u_query := Some (urlencoded_serialize c (forced (searchParams c u))) \<rparr>))
   \<and> (parse viewUrl None = None \<longrightarrow> toDirectDownloadUrl c parse viewUrl = None)
   \<and> (\<forall>u. parse viewUrl None = Some u \<longrightarrow>
          \<not> str_includes (js ''/pa/paFile.php'') (u_pathname u) \<longrightarrow>
          toDirectDownloadUrl c parse viewUrl = None)
   \<and> (\<forall>u. parse viewUrl None = Some u \<longrightarrow>
          str_includes (js ''/pa/paFile.php'') (u_pathname u) \<longrightarrow>
          sp_get (js ''tp'') (searchParams c u) = Some (js ''D'') \<longrightarrow>
          toDirectDownloadUrl c parse viewUrl = Some u)
   \<and> (\<forall>u. parse viewUrl None = Some u \<longrightarrow>
          str_includes (js ''/pa/paFile.php'') (u_pathname u) \<longrightarrow>
          sp_get (js ''tp'') (searchParams c u) \<noteq> Some (js ''D'') \<longrightarrow>
          toDirectDownloadUrl c parse viewUrl
            = Some (u \<lparr> u_query := Some (urlencoded_serialize c (forced (searchParams c u))) \<rparr>))
   \<and> forced params
       = takeWhile (\<lambda>p. fst p \<noteq> js ''tp'') params @ [(js ''tp'', js ''D'')]
           @ others (dropWhile (\<lambda>p. fst p \<noteq> js ''tp'') params)
   \<and> filter (\<lambda>p. fst p = js ''tp'') (forced params) = [(js ''tp'', js ''D'')]
   \<and> others (forced params) = others params
   \<and> ((\<forall>p \<in> set params. round_trips c (fst p) \<and> round_trips c (snd p))
        \<and> round_trips c (js ''tp'') \<and> round_trips c (js ''D'') \<longrightarrow>
        searchParams c (v \<lparr> u_query := Some (urlencoded_serialize c (forced params)) \<rparr>)
          = forced params)
   \<and> ((\<forall>p \<in> set params. round_trips c (fst p) \<and> round_trips c (snd p)) \<longrightarrow>
        searchParams c (v \<lparr> u_query := Some (urlencoded_serialize c params) \<rparr>) = params)"
proof (intro conjI allI impI)
  assume "parse (reference_of href) (Some baseUrl) = None"
  then show "toDirectDownloadFromHref c parse href baseUrl = None"
    by (simp add: toDirectDownloadFromHref_eq)
next
  fix u
  assume "parse (reference_of href) (Some baseUrl) = Some u"
  then show "toDirectDownloadFromHref c parse href baseUrl
            = Some (u \<lparr> u_pathname :=
                           (if unwrapped href = None \<and> ends_with (js ''/pa/paView.php'') (u_pathname u)
                               \<and> \<not> u_opaque u
                            then js ''/pa/paFile.php'' else u_pathname u),
                         u_query := Some (urlencoded_serialize c (forced (searchParams c u))) \<rparr>)"
    by (simp add: toDirectDownloadFromHref_eq force_tp_written searchParams_def set_pathname_def)
next
  assume "parse viewUrl None = None"
  then show "toDirectDownloadUrl c parse viewUrl = None"
    by (simp add: toDirectDownloadUrl_eq)
next
  fix u
  assume "parse viewUrl None = Some u" "\<not> str_includes (js ''/pa/paFile.php'') (u_pathname u)"
  then show "toDirectDownloadUrl c parse viewUrl = None"
    by (simp add: toDirectDownloadUrl_eq)
next
  fix u
  assume "parse viewUrl None = Some u" "str_includes (js ''/pa/paFile.php'') (u_pathname u)"
    "sp_get (js ''tp'') (searchParams c u) = Some (js ''D'')"
  then show "toDirectDownloadUrl c parse viewUrl = Some u"
    by (simp add: toDirectDownloadUrl_eq)
next
  fix u
  assume "parse viewUrl None = Some u" "str_includes (js ''/pa/paFile.php'') (u_pathname u)"
    "sp_get (js ''tp'') (searchParams c u) \<noteq> Some (js ''D'')"
  then show "toDirectDownloadUrl c parse viewUrl
            = Some (u \<lparr> u_query := Some (urlencoded_serialize c (forced (searchParams c u))) \<rparr>)"
    by (simp add: toDirectDownloadUrl_eq)
next
  show "forced params
       = takeWhile (\<lambda>p. fst p \<noteq> js ''tp'') params @ [(js ''tp'', js ''D'')]
           @ others (dropWhile (\<lambda>p. fst p \<noteq> js ''tp'') params)"
    by (rule forced_place)
next
  show "filter (\<lambda>p. fst p = js ''tp'') (forced params) = [(js ''tp'', js ''D'')]"
    by (rule forced_facts)
next
  show "others (forced params) = others params"
    by (rule forced_facts)
next
  assume a: "(\<forall>p \<in> set params. round_trips c (fst p) \<and> round_trips c (snd p))
             \<and> round_trips c (js ''tp'') \<and> round_trips c (js ''D'')"
  have "\<forall>p \<in> set (forced params). round_trips c (fst p) \<and> round_trips c (snd p)"
    using a set_forced [of params] by auto
  then show "searchParams c (v \<lparr> u_query := Some (urlencoded_serialize c (forced params)) \<rparr>)
             = forced params"
    by (rule searchParams_written)
next
  assume "\<forall>p \<in> set params. round_trips c (fst p) \<and> round_trips c (snd p)"
  then show "searchParams c (v \<lparr> u_query := Some (urlencoded_serialize c params) \<rparr>) = params"
    by (rule searchParams_written)
qed

lemma unwrapped_ex_view_href: "unwrapped ex_view_href = None"
  by (simp add: unwrapped_def ex_view_href_def starts_with_def js_simps)

lemma ex_view_url_paView: "ends_with (js ''/pa/paView.php'') (u_pathname ex_view_url)"
  by (simp add: ends_with_def ex_view_url_def)

lemma ex_view_url_plain: "\<not> u_opaque ex_view_url"
  by (simp add: ex_view_url_def)

lemma ex_file_url_paFile: "str_includes (js ''/pa/paFile.php'') (u_pathname ex_file_url)"
  by (simp add: ex_file_url_def js_simps starts_with_def)

lemma ex_view_url_not_paFile: "\<not> str_includes (js ''/pa/paFile.php'') (u_pathname ex_view_url)"
  by (simp add: ex_view_url_def js_simps starts_with_def)

lemma ex_view_url_params:
  "searchParams ascii_codec ex_view_url
   = [(js ''cltrNo'', js ''1778958''), (js ''tp'', js ''J''), (js ''chkNo'', js ''1''),
      (js ''bfree'', [])]"
  by code_simp

lemma ex_view_url_forced:
  "forced [(js ''cltrNo'', js ''1778958''), (js ''tp'', js ''J''), (js ''chkNo'', js ''1''),
           (js ''bfree'', [])]
   = [(js ''cltrNo'', js ''1778958''), (js ''tp'', js ''D''), (js ''chkNo'', js ''1''),
      (js ''bfree'', [])]"
  by code_simp

lemma ex_direct_url_written:
  "urlencoded_serialize ascii_codec
     [(js ''cltrNo'', js ''1778958''), (js ''tp'', js ''D''), (js ''chkNo'', js ''1''),
      (js ''bfree'', [])]
   = js ''cltrNo=1778958&tp=D&chkNo=1&bfree=''"
  by code_simp


lemma ex_file_url_params:
  "searchParams ascii_codec ex_file_url
   = [(js ''cltrNo'', js ''1778958''), (js ''tp'', js ''J''), (js ''chkNo'', js ''1''),
      (js ''bfree'', [])]"
  by code_simp

lemma ex_direct_url_params:
  "searchParams ascii_codec ex_direct_url
   = [(js ''cltrNo'', js ''1778958''), (js ''tp'', js ''D''), (js ''chkNo'', js ''1''),
      (js ''bfree'', [])]"
  by code_simp

lemma ex_params_round_trip:
  "\<forall>p \<in> set [(js ''cltrNo'', js ''1778958''), (js ''tp'', js ''J''), (js ''chkNo'', js ''1''),
               (js ''bfree'', [])].
     round_trips ascii_codec (fst p) \<and> round_trips ascii_codec (snd p)"
  "round_trips ascii_codec (js ''tp'')" "round_trips ascii_codec (js ''D'')"
  by (simp_all add: round_trips_def ascii_codec_def js_simps)

theorem C9_direct_url_reconstruction_witness:
  "toDirectDownloadFromHref ascii_codec (fixed_parser ex_view_url) ex_view_href
     (js ''https://www.tankauction.com/'') = Some ex_direct_url
   \<and> toDirectDownloadUrl ascii_codec (fixed_parser ex_file_url) ex_file_href = Some ex_direct_url
   \<and> u_pathname ex_direct_url = js ''/pa/paFile.php''
   \<and> u_query ex_direct_url = Some (js ''cltrNo=1778958&tp=D&chkNo=1&bfree='')
   \<and> searchParams ascii_codec ex_direct_url
       = [(js ''cltrNo'', js ''1778958''), (js ''tp'', js ''D''), (js ''chkNo'', js ''1''),
          (js ''bfree'', [])]
   \<and> toDirectDownloadUrl ascii_codec (fixed_parser ex_direct_url) ex_direct_href
       = Some ex_direct_url
   \<and> toDirectDownloadUrl ascii_codec (fixed_parser ex_view_url) ex_view_href = None
   \<and> toDirectDownloadFromHref ascii_codec throwing_parser (js ''http://'')
        (js ''https://www.tankauction.com/'') = None
   \<and> toDirectDownloadUrl ascii_codec throwing_parser (js ''http://'') = None"
proof -
  note T = C9_direct_url_reconstruction
    [where parse = "fixed_parser ex_view_url" and href = ex_view_href
       and baseUrl = "js ''https://www.tankauction.com/''" and c = ascii_codec
       and viewUrl = ex_file_href and v = ex_file_url
       and params = "[(js ''cltrNo'', js ''1778958''), (js ''tp'', js ''J''),
                      (js ''chkNo'', js ''1''), (js ''bfree'', [])]"]
  note F = C9_direct_url_reconstruction
    [where parse = "fixed_parser ex_file_url" and href = ex_file_href
       and baseUrl = "js ''https://www.tankauction.com/''" and c = ascii_codec
       and viewUrl = ex_file_href and v = ex_file_url
       and params = "[(js ''cltrNo'', js ''1778958''), (js ''tp'', js ''J''),
                      (js ''chkNo'', js ''1''), (js ''bfree'', [])]"]
  have p: "fixed_parser ex_view_url (reference_of ex_view_href)
             (Some (js ''https://www.tankauction.com/'')) = Some ex_view_url"
    "fixed_parser ex_file_url ex_file_href None = Some ex_file_url"
    by (simp_all add: fixed_parser_def)
  have g: "sp_get (js ''tp'') (searchParams ascii_codec ex_file_url) \<noteq> Some (js ''D'')"
    unfolding ex_file_url_params by (simp add: sp_get_def js_simps)
  from T p(1) have a: "toDirectDownloadFromHref ascii_codec (fixed_parser ex_view_url) ex_view_href
      (js ''https://www.tankauction.com/'')
    = Some (ex_view_url \<lparr> u_pathname :=
               (if unwrapped ex_view_href = None
                   \<and> ends_with (js ''/pa/paView.php'') (u_pathname ex_view_url)
                   \<and> \<not> u_opaque ex_view_url
                then js ''/pa/paFile.php'' else u_pathname ex_view_url),
             u_query := Some (urlencoded_serialize ascii_codec
                                (forced (searchParams ascii_codec ex_view_url))) \<rparr>)"
    by blast
  from F p(2) ex_file_url_paFile g
  have b: "toDirectDownloadUrl ascii_codec (fixed_parser ex_file_url) ex_file_href
    = Some (ex_file_url \<lparr> u_query := Some (urlencoded_serialize ascii_codec
                                             (forced (searchParams ascii_codec ex_file_url))) \<rparr>)"
    by blast
  from T ex_params_round_trip
  have c: "searchParams ascii_codec
             (ex_file_url \<lparr> u_query := Some (urlencoded_serialize ascii_codec
                (forced [(js ''cltrNo'', js ''1778958''), (js ''tp'', js ''J''),
                         (js ''chkNo'', js ''1''), (js ''bfree'', [])])) \<rparr>)
           = forced [(js ''cltrNo'', js ''1778958''), (js ''tp'', js ''J''),
                     (js ''chkNo'', js ''1''), (js ''bfree'', [])]"
    by blast
  have d: "ex_file_url \<lparr> u_query := Some (js ''cltrNo=1778958&tp=D&chkNo=1&bfree='') \<rparr>
           = ex_direct_url"
    "ex_view_url \<lparr> u_pathname := js ''/pa/paFile.php'',
                   u_query := Some (js ''cltrNo=1778958&tp=D&chkNo=1&bfree='') \<rparr>
     = ex_direct_url"
    by (simp_all add: ex_direct_url_def ex_file_url_def)
  have e: "u_pathname ex_direct_url = js ''/pa/paFile.php''"
    "u_query ex_direct_url = Some (js ''cltrNo=1778958&tp=D&chkNo=1&bfree='')"
    by (simp_all add: ex_direct_url_def ex_file_url_def)
  note K = C9_direct_url_reconstruction
    [where parse = "fixed_parser ex_direct_url" and viewUrl = ex_direct_href and c = ascii_codec]
  have "fixed_parser ex_direct_url ex_direct_href None = Some ex_direct_url"
    by (simp add: fixed_parser_def)
  moreover have "str_includes (js ''/pa/paFile.php'') (u_pathname ex_direct_url)"
    using ex_file_url_paFile by (simp add: ex_direct_url_def)
  moreover have "sp_get (js ''tp'') (searchParams ascii_codec ex_direct_url) = Some (js ''D'')"
    unfolding ex_direct_url_params by (simp add: sp_get_def js_simps)
  ultimately have k: "toDirectDownloadUrl ascii_codec (fixed_parser ex_direct_url) ex_direct_href
                      = Some ex_direct_url"
    using K by blast
  note R = C9_direct_url_reconstruction
    [where parse = "fixed_parser ex_view_url" and viewUrl = ex_view_href and c = ascii_codec]
  have "fixed_parser ex_view_url ex_view_href None = Some ex_view_url"
    by (simp add: fixed_parser_def)
  with R ex_view_url_not_paFile
  have r: "toDirectDownloadUrl ascii_codec (fixed_parser ex_view_url) ex_view_href = None"
    by blast
  note N = C9_direct_url_reconstruction
    [where parse = throwing_parser and href = "js ''http://''"
       and baseUrl = "js ''https://www.tankauction.com/''" and viewUrl = "js ''http://''"
       and c = ascii_codec]
  have "throwing_parser (reference_of (js ''http://'')) (Some (js ''https://www.tankauction.com/'')) = None"
    "throwing_parser (js ''http://'') None = None"
    by (simp_all add: throwing_parser_def)
  with N have n: "toDirectDownloadFromHref ascii_codec throwing_parser (js ''http://'')
                    (js ''https://www.tankauction.com/'') = None"
    "toDirectDownloadUrl ascii_codec throwing_parser (js ''http://'') = None"
    by blast+
  have m: "toDirectDownloadFromHref ascii_codec (fixed_parser ex_view_url) ex_view_href
             (js ''https://www.tankauction.com/'') = Some ex_direct_url
         \<and> toDirectDownloadUrl ascii_codec (fixed_parser ex_file_url) ex_file_href = Some ex_direct_url
         \<and> searchParams ascii_codec ex_direct_url
             = [(js ''cltrNo'', js ''1778958''), (js ''tp'', js ''D''), (js ''chkNo'', js ''1''),
                (js ''bfree'', [])]"
    using a b c
    unfolding unwrapped_ex_view_href ex_view_url_params ex_file_url_params ex_view_url_forced
      ex_direct_url_written
    by (simp add: ex_view_url_paView ex_view_url_plain d)
  from m e k r n show ?thesis by blast
qed

lemma ex_legacy_refuses:
  "toDirectDownloadUrl ascii_codec (fixed_parser ex_view_url) ex_view_href = None"
  by (simp add: toDirectDownloadUrl_eq fixed_parser_def ex_view_url_not_paFile)

lemma ex_spaced_params:
  "searchParams ascii_codec ex_spaced_url = [(js ''title'', js ''a b''), (js ''tp'', js ''J'')]"
  by code_simp

lemma ex_spaced_written:
  "urlencoded_serialize ascii_codec
     (forced [(js ''title'', js ''a b''), (js ''tp'', js ''J'')]) = js ''title=a+b&tp=D''"
  by code_simp

lemma ex_spaced_direct:
  "toDirectDownloadFromHref ascii_codec (fixed_parser ex_spaced_url) ex_spaced_href
     (js ''https://www.tankauction.com/'')
   = Some (ex_spaced_url \<lparr> u_query := Some (js ''title=a+b&tp=D'') \<rparr>)"
proof -
  have u: "unwrapped ex_spaced_href = None"
    by (simp add: unwrapped_def ex_spaced_href_def starts_with_def js_simps)
  have n: "\<not> ends_with (js ''/pa/paView.php'') (u_pathname ex_spaced_url)"
    by (simp add: ends_with_def ex_spaced_url_def ex_file_url_def js_simps)
  show ?thesis
    by (simp add: toDirectDownloadFromHref_eq fixed_parser_def u n force_tp_written
        ex_spaced_params ex_spaced_written)
qed

lemma ex_twice_params:
  "searchParams ascii_codec ex_twice_url = [(js ''tp'', js ''D''), (js ''tp'', js ''J'')]"
  by code_simp

lemma ex_twice_kept:
  "toDirectDownloadUrl ascii_codec (fixed_parser ex_twice_url) ex_twice_href = Some ex_twice_url"
proof -
  have p: "str_includes (js ''/pa/paFile.php'') (u_pathname ex_twice_url)"
    by (simp add: ex_twice_url_def ex_file_url_def js_simps starts_with_def)
  have g: "sp_get (js ''tp'') (searchParams ascii_codec ex_twice_url) = Some (js ''D'')"
    unfolding ex_twice_params by (simp add: sp_get_def)
  show ?thesis
    by (simp add: toDirectDownloadUrl_eq fixed_parser_def p g)
qed

theorem C9_legacy_and_verbatim_counterexample:
  "fixed_parser ex_view_url ex_view_href None = Some ex_view_url
   \<and> toDirectDownloadUrl ascii_codec (fixed_parser ex_view_url) ex_view_href = None
   \<and> u_query ex_spaced_url = Some (js ''title=a%20b&tp=J'')
   \<and> toDirectDownloadFromHref ascii_codec (fixed_parser ex_spaced_url) ex_spaced_href
        (js ''https://www.tankauction.com/'')
      = Some (ex_spaced_url \<lparr> u_query := Some (js ''title=a+b&tp=D'') \<rparr>)
   \<and> js ''title=a%20b'' \<noteq> js ''title=a+b''
   \<and> toDirectDownloadUrl ascii_codec (fixed_parser ex_twice_url) ex_twice_href = Some ex_twice_url
   \<and> searchParams ascii_codec ex_twice_url = [(js ''tp'', js ''D''), (js ''tp'', js ''J'')]"
proof -
  have 1: "fixed_parser ex_view_url ex_view_href None = Some ex_view_url"
    by (simp add: fixed_parser_def)
  have 2: "u_query ex_spaced_url = Some (js ''title=a%20b&tp=J'')"
    by (simp add: ex_spaced_url_def)
  have 3: "js ''title=a%20b'' \<noteq> js ''title=a+b''"
    by (simp add: js_simps)
  from 1 2 3 ex_legacy_refuses ex_spaced_direct ex_twice_kept ex_twice_params
  show ?thesis by blast
qed









end
